theory Spec2Isabelle
  imports Main "HOL-Library.Sublist" "HOL-Library.List_Lexorder"
begin

section \<open>Strings of code points\<close>

text \<open>
  A Python \<open>str\<close> is a sequence of Unicode code points; it is modelled as a list of
  naturals, one per code point, so that lengths and positions are those Python sees.
  The Cyrillic literals of \<open>bot.py\<close> are written out code point by code point.
\<close>

type_synonym ustr = "nat list"

abbreviation kw_zavtra :: ustr where
  \<comment> \<open>U+0437 U+0430 U+0432 U+0442 U+0440 U+0430, "tomorrow"\<close>
  "kw_zavtra \<equiv> [1079, 1072, 1074, 1090, 1088, 1072]"

abbreviation kw_segodnya :: ustr where
  \<comment> \<open>"today"\<close>
  "kw_segodnya \<equiv> [1089, 1077, 1075, 1086, 1076, 1085, 1103]"

abbreviation kw_poslezavtra :: ustr where
  \<comment> \<open>"the day after tomorrow": the letters U+043F U+043E U+0441 U+043B U+0435 and then \<open>kw_zavtra\<close>\<close>
  "kw_poslezavtra \<equiv> [1087, 1086, 1089, 1083, 1077, 1079, 1072, 1074, 1090, 1088, 1072]"


text \<open>
  The month table of \<open>RU_MONTHS\<close>: for each month the nominative and the genitive form.
\<close>

definition month_forms :: "ustr list list" where
  "month_forms =
    [[[1103, 1085, 1074, 1072, 1088, 1100], [1103, 1085, 1074, 1072, 1088, 1103]],
     [[1092, 1077, 1074, 1088, 1072, 1083, 1100], [1092, 1077, 1074, 1088, 1072, 1083, 1103]],
     [[1084, 1072, 1088, 1090], [1084, 1072, 1088, 1090, 1072]],
     [[1072, 1087, 1088, 1077, 1083, 1100], [1072, 1087, 1088, 1077, 1083, 1103]],
     [[1084, 1072, 1081], [1084, 1072, 1103]],
     [[1080, 1102, 1085, 1100], [1080, 1102, 1085, 1103]],
     [[1080, 1102, 1083, 1100], [1080, 1102, 1083, 1103]],
     [[1072, 1074, 1075, 1091, 1089, 1090], [1072, 1074, 1075, 1091, 1089, 1090, 1072]],
     [[1089, 1077, 1085, 1090, 1103, 1073, 1088, 1100], [1089, 1077, 1085, 1090, 1103, 1073, 1088, 1103]],
     [[1086, 1082, 1090, 1103, 1073, 1088, 1100], [1086, 1082, 1090, 1103, 1073, 1088, 1103]],
     [[1085, 1086, 1103, 1073, 1088, 1100], [1085, 1086, 1103, 1073, 1088, 1103]],
     [[1076, 1077, 1082, 1072, 1073, 1088, 1100], [1076, 1077, 1082, 1072, 1073, 1088, 1103]]]"

definition RU_MONTHS :: "(ustr \<times> nat) list" where
  \<comment> \<open>\<open>{m: i for i, months in enumerate([...], 1) for m in months}\<close>\<close>
  "RU_MONTHS = concat (map (\<lambda>(i, months). map (\<lambda>m. (m, i)) months) (zip [1..<13] month_forms))"

definition month_genitives :: "ustr list" where
  \<comment> \<open>the alternation of the two regular expressions, in its written order\<close>
  "month_genitives =
    [[1103, 1085, 1074, 1072, 1088, 1103],
     [1092, 1077, 1074, 1088, 1072, 1083, 1103],
     [1084, 1072, 1088, 1090, 1072],
     [1072, 1087, 1088, 1077, 1083, 1103],
     [1084, 1072, 1103],
     [1080, 1102, 1085, 1103],
     [1080, 1102, 1083, 1103],
     [1072, 1074, 1075, 1091, 1089, 1090, 1072],
     [1089, 1077, 1085, 1090, 1103, 1073, 1088, 1103],
     [1086, 1082, 1090, 1103, 1073, 1088, 1103],
     [1085, 1086, 1103, 1073, 1088, 1103],
     [1076, 1077, 1082, 1072, 1073, 1088, 1103]]"

subsection \<open>Character classes of Python 3\<close>

text \<open>
  For \<open>str\<close> patterns \<open>\d\<close> is the Unicode category Nd and \<open>\s\<close> is \<open>str.isspace\<close>.
  Every Nd digit lies in a block of ten consecutive code points; \<open>nd_zeros\<close> lists the
  zero of each block (Unicode 14, the table of CPython 3.11).
\<close>

definition nd_zeros :: "nat list" where
  "nd_zeros =
    [48, 1632, 1776, 1984, 2406, 2534, 2662, 2790, 2918, 3046, 3174, 3302, 3430, 3558,
     3664, 3792, 3872, 4160, 4240, 6112, 6160, 6470, 6608, 6784, 6800, 6992, 7088, 7232,
     7248, 42528, 43216, 43264, 43472, 43504, 43600, 44016, 65296, 66720, 68912, 69734,
     69872, 69942, 70096, 70384, 70736, 70864, 71248, 71360, 71472, 71904, 72016, 72784,
     73040, 73120, 92768, 92864, 93008, 120782, 120792, 120802, 120812, 120822, 123200,
     123632, 125264, 130032]"

definition digit_val :: "nat \<Rightarrow> nat option" where
  "digit_val c =
    (case find (\<lambda>z. z \<le> c \<and> c < z + 10) nd_zeros of
       None \<Rightarrow> None
     | Some z \<Rightarrow> Some (c - z))"

definition is_digit :: "nat \<Rightarrow> bool" where
  "is_digit c = (digit_val c \<noteq> None)"

definition is_space :: "nat \<Rightarrow> bool" where
  "is_space c =
    ((9 \<le> c \<and> c \<le> 13) \<or> (28 \<le> c \<and> c \<le> 32) \<or> c = 133 \<or> c = 160 \<or> c = 5760 \<or>
     (8192 \<le> c \<and> c \<le> 8202) \<or> c = 8232 \<or> c = 8233 \<or> c = 8239 \<or> c = 8287 \<or> c = 12288)"

subsection \<open>Lower-casing\<close>

text \<open>
  \<open>str.lower\<close> as CPython computes it, with the tables of Unicode 14 (CPython 3.11).
  Every code point has a lower-case form of one code point, except U+0130, whose form
  has two (U+0069 U+0307), and the capital sigma U+03A3, which becomes the final sigma
  U+03C2 when a cased letter stands before it and none after it, code points with the
  property Case_Ignorable being skipped on both sides, and U+03C3 otherwise.
  An entry \<open>(lo, hi, step, t)\<close> of \<open>lower_table\<close> maps \<open>lo\<close>, \<open>lo + step\<close>, ... up to \<open>hi\<close>
  to \<open>t\<close>, \<open>t + step\<close>, ...; a code point without an entry is its own lower case.
\<close>

definition lower_table :: "(nat \<times> nat \<times> nat \<times> nat) list" where
  "lower_table =
    [(65, 90, 1, 97), (192, 214, 1, 224), (216, 222, 1, 248), (256, 302, 2, 257),
     (306, 310, 2, 307), (313, 327, 2, 314), (330, 374, 2, 331), (376, 376, 1, 255),
     (377, 381, 2, 378), (385, 385, 1, 595), (386, 388, 2, 387), (390, 390, 1, 596),
     (391, 391, 1, 392), (393, 394, 1, 598), (395, 395, 1, 396), (398, 398, 1, 477),
     (399, 399, 1, 601), (400, 400, 1, 603), (401, 401, 1, 402), (403, 403, 1, 608),
     (404, 404, 1, 611), (406, 406, 1, 617), (407, 407, 1, 616), (408, 408, 1, 409),
     (412, 412, 1, 623), (413, 413, 1, 626), (415, 415, 1, 629), (416, 420, 2, 417),
     (422, 422, 1, 640), (423, 423, 1, 424), (425, 425, 1, 643), (428, 428, 1, 429),
     (430, 430, 1, 648), (431, 431, 1, 432), (433, 434, 1, 650), (435, 437, 2, 436),
     (439, 439, 1, 658), (440, 440, 1, 441), (444, 444, 1, 445), (452, 452, 1, 454),
     (453, 453, 1, 454), (455, 455, 1, 457), (456, 456, 1, 457), (458, 458, 1, 460),
     (459, 475, 2, 460), (478, 494, 2, 479), (497, 497, 1, 499), (498, 500, 2, 499),
     (502, 502, 1, 405), (503, 503, 1, 447), (504, 542, 2, 505), (544, 544, 1, 414),
     (546, 562, 2, 547), (570, 570, 1, 11365), (571, 571, 1, 572), (573, 573, 1, 410),
     (574, 574, 1, 11366), (577, 577, 1, 578), (579, 579, 1, 384), (580, 580, 1, 649),
     (581, 581, 1, 652), (582, 590, 2, 583), (880, 882, 2, 881), (886, 886, 1, 887),
     (895, 895, 1, 1011), (902, 902, 1, 940), (904, 906, 1, 941), (908, 908, 1, 972),
     (910, 911, 1, 973), (913, 929, 1, 945), (931, 939, 1, 963), (975, 975, 1, 983),
     (984, 1006, 2, 985), (1012, 1012, 1, 952), (1015, 1015, 1, 1016), (1017, 1017, 1, 1010),
     (1018, 1018, 1, 1019), (1021, 1023, 1, 891), (1024, 1039, 1, 1104), (1040, 1071, 1, 1072),
     (1120, 1152, 2, 1121), (1162, 1214, 2, 1163), (1216, 1216, 1, 1231),
     (1217, 1229, 2, 1218), (1232, 1326, 2, 1233), (1329, 1366, 1, 1377),
     (4256, 4293, 1, 11520), (4295, 4295, 1, 11559), (4301, 4301, 1, 11565),
     (5024, 5103, 1, 43888), (5104, 5109, 1, 5112), (7312, 7354, 1, 4304),
     (7357, 7359, 1, 4349), (7680, 7828, 2, 7681), (7838, 7838, 1, 223), (7840, 7934, 2, 7841),
     (7944, 7951, 1, 7936), (7960, 7965, 1, 7952), (7976, 7983, 1, 7968),
     (7992, 7999, 1, 7984), (8008, 8013, 1, 8000), (8025, 8031, 2, 8017),
     (8040, 8047, 1, 8032), (8072, 8079, 1, 8064), (8088, 8095, 1, 8080),
     (8104, 8111, 1, 8096), (8120, 8121, 1, 8112), (8122, 8123, 1, 8048),
     (8124, 8124, 1, 8115), (8136, 8139, 1, 8050), (8140, 8140, 1, 8131),
     (8152, 8153, 1, 8144), (8154, 8155, 1, 8054), (8168, 8169, 1, 8160),
     (8170, 8171, 1, 8058), (8172, 8172, 1, 8165), (8184, 8185, 1, 8056),
     (8186, 8187, 1, 8060), (8188, 8188, 1, 8179), (8486, 8486, 1, 969), (8490, 8490, 1, 107),
     (8491, 8491, 1, 229), (8498, 8498, 1, 8526), (8544, 8559, 1, 8560), (8579, 8579, 1, 8580),
     (9398, 9423, 1, 9424), (11264, 11311, 1, 11312), (11360, 11360, 1, 11361),
     (11362, 11362, 1, 619), (11363, 11363, 1, 7549), (11364, 11364, 1, 637),
     (11367, 11371, 2, 11368), (11373, 11373, 1, 593), (11374, 11374, 1, 625),
     (11375, 11375, 1, 592), (11376, 11376, 1, 594), (11378, 11378, 1, 11379),
     (11381, 11381, 1, 11382), (11390, 11391, 1, 575), (11392, 11490, 2, 11393),
     (11499, 11501, 2, 11500), (11506, 11506, 1, 11507), (42560, 42604, 2, 42561),
     (42624, 42650, 2, 42625), (42786, 42798, 2, 42787), (42802, 42862, 2, 42803),
     (42873, 42875, 2, 42874), (42877, 42877, 1, 7545), (42878, 42886, 2, 42879),
     (42891, 42891, 1, 42892), (42893, 42893, 1, 613), (42896, 42898, 2, 42897),
     (42902, 42920, 2, 42903), (42922, 42922, 1, 614), (42923, 42923, 1, 604),
     (42924, 42924, 1, 609), (42925, 42925, 1, 620), (42926, 42926, 1, 618),
     (42928, 42928, 1, 670), (42929, 42929, 1, 647), (42930, 42930, 1, 669),
     (42931, 42931, 1, 43859), (42932, 42946, 2, 42933), (42948, 42948, 1, 42900),
     (42949, 42949, 1, 642), (42950, 42950, 1, 7566), (42951, 42953, 2, 42952),
     (42960, 42960, 1, 42961), (42966, 42968, 2, 42967), (42997, 42997, 1, 42998),
     (65313, 65338, 1, 65345), (66560, 66599, 1, 66600), (66736, 66771, 1, 66776),
     (66928, 66938, 1, 66967), (66940, 66954, 1, 66979), (66956, 66962, 1, 66995),
     (66964, 66965, 1, 67003), (68736, 68786, 1, 68800), (71840, 71871, 1, 71872),
     (93760, 93791, 1, 93792), (125184, 125217, 1, 125218)]"

definition case_ignorable_ranges :: "(nat \<times> nat) list" where
  "case_ignorable_ranges =
    [(39, 39), (46, 46), (58, 58), (94, 94), (96, 96), (168, 168), (173, 173), (175, 175),
     (180, 180), (183, 184), (688, 879), (884, 885), (890, 890), (900, 901), (903, 903),
     (1155, 1161), (1369, 1369), (1375, 1375), (1425, 1469), (1471, 1471), (1473, 1474),
     (1476, 1477), (1479, 1479), (1524, 1524), (1536, 1541), (1552, 1562), (1564, 1564),
     (1600, 1600), (1611, 1631), (1648, 1648), (1750, 1757), (1759, 1768), (1770, 1773),
     (1807, 1807), (1809, 1809), (1840, 1866), (1958, 1968), (2027, 2037), (2042, 2042),
     (2045, 2045), (2070, 2093), (2137, 2139), (2184, 2184), (2192, 2193), (2200, 2207),
     (2249, 2306), (2362, 2362), (2364, 2364), (2369, 2376), (2381, 2381), (2385, 2391),
     (2402, 2403), (2417, 2417), (2433, 2433), (2492, 2492), (2497, 2500), (2509, 2509),
     (2530, 2531), (2558, 2558), (2561, 2562), (2620, 2620), (2625, 2626), (2631, 2632),
     (2635, 2637), (2641, 2641), (2672, 2673), (2677, 2677), (2689, 2690), (2748, 2748),
     (2753, 2757), (2759, 2760), (2765, 2765), (2786, 2787), (2810, 2815), (2817, 2817),
     (2876, 2876), (2879, 2879), (2881, 2884), (2893, 2893), (2901, 2902), (2914, 2915),
     (2946, 2946), (3008, 3008), (3021, 3021), (3072, 3072), (3076, 3076), (3132, 3132),
     (3134, 3136), (3142, 3144), (3146, 3149), (3157, 3158), (3170, 3171), (3201, 3201),
     (3260, 3260), (3263, 3263), (3270, 3270), (3276, 3277), (3298, 3299), (3328, 3329),
     (3387, 3388), (3393, 3396), (3405, 3405), (3426, 3427), (3457, 3457), (3530, 3530),
     (3538, 3540), (3542, 3542), (3633, 3633), (3636, 3642), (3654, 3662), (3761, 3761),
     (3764, 3772), (3782, 3782), (3784, 3789), (3864, 3865), (3893, 3893), (3895, 3895),
     (3897, 3897), (3953, 3966), (3968, 3972), (3974, 3975), (3981, 3991), (3993, 4028),
     (4038, 4038), (4141, 4144), (4146, 4151), (4153, 4154), (4157, 4158), (4184, 4185),
     (4190, 4192), (4209, 4212), (4226, 4226), (4229, 4230), (4237, 4237), (4253, 4253),
     (4348, 4348), (4957, 4959), (5906, 5908), (5938, 5939), (5970, 5971), (6002, 6003),
     (6068, 6069), (6071, 6077), (6086, 6086), (6089, 6099), (6103, 6103), (6109, 6109),
     (6155, 6159), (6211, 6211), (6277, 6278), (6313, 6313), (6432, 6434), (6439, 6440),
     (6450, 6450), (6457, 6459), (6679, 6680), (6683, 6683), (6742, 6742), (6744, 6750),
     (6752, 6752), (6754, 6754), (6757, 6764), (6771, 6780), (6783, 6783), (6823, 6823),
     (6832, 6862), (6912, 6915), (6964, 6964), (6966, 6970), (6972, 6972), (6978, 6978),
     (7019, 7027), (7040, 7041), (7074, 7077), (7080, 7081), (7083, 7085), (7142, 7142),
     (7144, 7145), (7149, 7149), (7151, 7153), (7212, 7219), (7222, 7223), (7288, 7293),
     (7376, 7378), (7380, 7392), (7394, 7400), (7405, 7405), (7412, 7412), (7416, 7417),
     (7468, 7530), (7544, 7544), (7579, 7679), (8125, 8125), (8127, 8129), (8141, 8143),
     (8157, 8159), (8173, 8175), (8189, 8190), (8203, 8207), (8216, 8217), (8228, 8228),
     (8231, 8231), (8234, 8238), (8288, 8292), (8294, 8303), (8305, 8305), (8319, 8319),
     (8336, 8348), (8400, 8432), (11388, 11389), (11503, 11505), (11631, 11631),
     (11647, 11647), (11744, 11775), (11823, 11823), (12293, 12293), (12330, 12333),
     (12337, 12341), (12347, 12347), (12441, 12446), (12540, 12542), (40981, 40981),
     (42232, 42237), (42508, 42508), (42607, 42610), (42612, 42621), (42623, 42623),
     (42652, 42655), (42736, 42737), (42752, 42785), (42864, 42864), (42888, 42890),
     (42994, 42996), (43000, 43001), (43010, 43010), (43014, 43014), (43019, 43019),
     (43045, 43046), (43052, 43052), (43204, 43205), (43232, 43249), (43263, 43263),
     (43302, 43309), (43335, 43345), (43392, 43394), (43443, 43443), (43446, 43449),
     (43452, 43453), (43471, 43471), (43493, 43494), (43561, 43566), (43569, 43570),
     (43573, 43574), (43587, 43587), (43596, 43596), (43632, 43632), (43644, 43644),
     (43696, 43696), (43698, 43700), (43703, 43704), (43710, 43711), (43713, 43713),
     (43741, 43741), (43756, 43757), (43763, 43764), (43766, 43766), (43867, 43871),
     (43881, 43883), (44005, 44005), (44008, 44008), (44013, 44013), (64286, 64286),
     (64434, 64450), (65024, 65039), (65043, 65043), (65056, 65071), (65106, 65106),
     (65109, 65109), (65279, 65279), (65287, 65287), (65294, 65294), (65306, 65306),
     (65342, 65342), (65344, 65344), (65392, 65392), (65438, 65439), (65507, 65507),
     (65529, 65531), (66045, 66045), (66272, 66272), (66422, 66426), (67456, 67461),
     (67463, 67504), (67506, 67514), (68097, 68099), (68101, 68102), (68108, 68111),
     (68152, 68154), (68159, 68159), (68325, 68326), (68900, 68903), (69291, 69292),
     (69446, 69456), (69506, 69509), (69633, 69633), (69688, 69702), (69744, 69744),
     (69747, 69748), (69759, 69761), (69811, 69814), (69817, 69818), (69821, 69821),
     (69826, 69826), (69837, 69837), (69888, 69890), (69927, 69931), (69933, 69940),
     (70003, 70003), (70016, 70017), (70070, 70078), (70089, 70092), (70095, 70095),
     (70191, 70193), (70196, 70196), (70198, 70199), (70206, 70206), (70367, 70367),
     (70371, 70378), (70400, 70401), (70459, 70460), (70464, 70464), (70502, 70508),
     (70512, 70516), (70712, 70719), (70722, 70724), (70726, 70726), (70750, 70750),
     (70835, 70840), (70842, 70842), (70847, 70848), (70850, 70851), (71090, 71093),
     (71100, 71101), (71103, 71104), (71132, 71133), (71219, 71226), (71229, 71229),
     (71231, 71232), (71339, 71339), (71341, 71341), (71344, 71349), (71351, 71351),
     (71453, 71455), (71458, 71461), (71463, 71467), (71727, 71735), (71737, 71738),
     (71995, 71996), (71998, 71998), (72003, 72003), (72148, 72151), (72154, 72155),
     (72160, 72160), (72193, 72202), (72243, 72248), (72251, 72254), (72263, 72263),
     (72273, 72278), (72281, 72283), (72330, 72342), (72344, 72345), (72752, 72758),
     (72760, 72765), (72767, 72767), (72850, 72871), (72874, 72880), (72882, 72883),
     (72885, 72886), (73009, 73014), (73018, 73018), (73020, 73021), (73023, 73029),
     (73031, 73031), (73104, 73105), (73109, 73109), (73111, 73111), (73459, 73460),
     (78896, 78904), (92912, 92916), (92976, 92982), (92992, 92995), (94031, 94031),
     (94095, 94111), (94176, 94177), (94179, 94180), (110576, 110579), (110581, 110587),
     (110589, 110590), (113821, 113822), (113824, 113827), (118528, 118573), (118576, 118598),
     (119143, 119145), (119155, 119170), (119173, 119179), (119210, 119213), (119362, 119364),
     (121344, 121398), (121403, 121452), (121461, 121461), (121476, 121476), (121499, 121503),
     (121505, 121519), (122880, 122886), (122888, 122904), (122907, 122913), (122915, 122916),
     (122918, 122922), (123184, 123197), (123566, 123566), (123628, 123631), (125136, 125142),
     (125252, 125259), (127995, 127999), (917505, 917505), (917536, 917631), (917760, 917999)]"

definition cased_ranges :: "(nat \<times> nat) list" where
  "cased_ranges =
    [(65, 90), (97, 122), (170, 170), (181, 181), (186, 186), (192, 214), (216, 246),
     (248, 442), (444, 447), (452, 659), (661, 696), (704, 705), (736, 740), (837, 837),
     (880, 883), (886, 887), (890, 893), (895, 895), (902, 902), (904, 906), (908, 908),
     (910, 929), (931, 1013), (1015, 1153), (1162, 1327), (1329, 1366), (1376, 1416),
     (4256, 4293), (4295, 4295), (4301, 4301), (4304, 4346), (4349, 4351), (5024, 5109),
     (5112, 5117), (7296, 7304), (7312, 7354), (7357, 7359), (7424, 7615), (7680, 7957),
     (7960, 7965), (7968, 8005), (8008, 8013), (8016, 8023), (8025, 8025), (8027, 8027),
     (8029, 8029), (8031, 8061), (8064, 8116), (8118, 8124), (8126, 8126), (8130, 8132),
     (8134, 8140), (8144, 8147), (8150, 8155), (8160, 8172), (8178, 8180), (8182, 8188),
     (8305, 8305), (8319, 8319), (8336, 8348), (8450, 8450), (8455, 8455), (8458, 8467),
     (8469, 8469), (8473, 8477), (8484, 8484), (8486, 8486), (8488, 8488), (8490, 8493),
     (8495, 8500), (8505, 8505), (8508, 8511), (8517, 8521), (8526, 8526), (8544, 8575),
     (8579, 8580), (9398, 9449), (11264, 11492), (11499, 11502), (11506, 11507),
     (11520, 11557), (11559, 11559), (11565, 11565), (42560, 42605), (42624, 42653),
     (42786, 42887), (42891, 42894), (42896, 42954), (42960, 42961), (42963, 42963),
     (42965, 42969), (42997, 42998), (43000, 43002), (43824, 43866), (43868, 43880),
     (43888, 43967), (64256, 64262), (64275, 64279), (65313, 65338), (65345, 65370),
     (66560, 66639), (66736, 66771), (66776, 66811), (66928, 66938), (66940, 66954),
     (66956, 66962), (66964, 66965), (66967, 66977), (66979, 66993), (66995, 67001),
     (67003, 67004), (67456, 67456), (67459, 67461), (67463, 67504), (67506, 67514),
     (68736, 68786), (68800, 68850), (71840, 71903), (93760, 93823), (119808, 119892),
     (119894, 119964), (119966, 119967), (119970, 119970), (119973, 119974), (119977, 119980),
     (119982, 119993), (119995, 119995), (119997, 120003), (120005, 120069), (120071, 120074),
     (120077, 120084), (120086, 120092), (120094, 120121), (120123, 120126), (120128, 120132),
     (120134, 120134), (120138, 120144), (120146, 120485), (120488, 120512), (120514, 120538),
     (120540, 120570), (120572, 120596), (120598, 120628), (120630, 120654), (120656, 120686),
     (120688, 120712), (120714, 120744), (120746, 120770), (120772, 120779), (122624, 122633),
     (122635, 122654), (125184, 125251), (127280, 127305), (127312, 127337), (127344, 127369)]"

definition in_ranges :: "(nat \<times> nat) list \<Rightarrow> nat \<Rightarrow> bool" where
  "in_ranges rs c = list_ex (\<lambda>(lo, hi). lo \<le> c \<and> c \<le> hi) rs"

definition case_ignorable :: "nat \<Rightarrow> bool" where
  "case_ignorable c = in_ranges case_ignorable_ranges c"

definition cased :: "nat \<Rightarrow> bool" where
  "cased c = in_ranges cased_ranges c"

definition lower_simple :: "nat \<Rightarrow> nat" where
  "lower_simple c =
    (case find (\<lambda>(lo, hi, step, t). lo \<le> c \<and> c \<le> hi \<and> (c - lo) mod step = 0) lower_table of
       None \<Rightarrow> c
     | Some (lo, hi, step, t) \<Rightarrow> t + (c - lo))"

definition lower_full :: "nat \<Rightarrow> ustr" where
  "lower_full c = (if c = 304 then [105, 775] else [lower_simple c])"

definition final_sigma :: "ustr \<Rightarrow> ustr \<Rightarrow> bool" where
  \<comment> \<open>\<open>before\<close> is the text before the sigma, nearest code point first; \<open>after\<close> the text after it\<close>
  "final_sigma before after =
    ((case dropWhile case_ignorable before of [] \<Rightarrow> False | b # _ \<Rightarrow> cased b) \<and>
     (case dropWhile case_ignorable after of [] \<Rightarrow> True | a # _ \<Rightarrow> \<not> cased a))"

fun lower_from :: "ustr \<Rightarrow> ustr \<Rightarrow> ustr" where
  "lower_from before [] = []"
| "lower_from before (c # cs) =
    (if c = 931 then [if final_sigma before cs then 962 else 963] else lower_full c)
    @ lower_from (c # before) cs"

definition str_lower :: "ustr \<Rightarrow> ustr" where
  "str_lower s = lower_from [] s"

fun str_in :: "ustr \<Rightarrow> ustr \<Rightarrow> bool" where
  \<comment> \<open>\<open>sub in s\<close>\<close>
  "str_in sub [] = (sub = [])"
| "str_in sub (c # cs) = (prefix sub (c # cs) \<or> str_in sub cs)"

definition strip :: "ustr \<Rightarrow> ustr" where
  "strip s = rev (dropWhile is_space (rev (dropWhile is_space s)))"

definition py_int :: "ustr \<Rightarrow> nat" where
  \<comment> \<open>\<open>int(s)\<close> on a string of decimal digits\<close>
  "py_int s = foldl (\<lambda>a c. 10 * a + (case digit_val c of Some v \<Rightarrow> v | None \<Rightarrow> 0)) 0 s"

section \<open>Backtracking matchers\<close>

text \<open>
  A pattern is a function from the text at a position to the list of its matches there,
  each the matched text and the rest, in the order Python's backtracking matcher tries
  them (greedy repetition first, alternatives left to right). The match of the pattern
  at that position is the head of the list.
\<close>

type_synonym matcher = "ustr \<Rightarrow> (ustr \<times> ustr) list"

definition lit :: "ustr \<Rightarrow> matcher" where
  "lit w s = (if prefix w s then [(w, drop (length w) s)] else [])"

definition alts :: "ustr list \<Rightarrow> matcher" where
  \<comment> \<open>\<open>w1|w2|...\<close>\<close>
  "alts ws s = concat (map (\<lambda>w. lit w s) ws)"

definition digit1 :: matcher where
  \<comment> \<open>\<open>\d\<close>\<close>
  "digit1 s = (case s of [] \<Rightarrow> [] | c # cs \<Rightarrow> if is_digit c then [([c], cs)] else [])"

definition digits12 :: matcher where
  \<comment> \<open>\<open>\d{1,2}\<close>: two digits before one\<close>
  "digits12 s =
    concat (map (\<lambda>(a, r1). map (\<lambda>(b, r2). (a @ b, r2)) (digit1 r1 @ [([], r1)])) (digit1 s))"

fun spaces0 :: matcher where
  \<comment> \<open>\<open>\s*\<close>: the longest run first, then each shorter one\<close>
  "spaces0 [] = [([], [])]"
| "spaces0 (c # cs) =
    (if is_space c then map (\<lambda>(m, r). (c # m, r)) (spaces0 cs) else []) @ [([], c # cs)]"

definition seq3 :: "matcher \<Rightarrow> matcher \<Rightarrow> matcher \<Rightarrow> ustr \<Rightarrow> ((ustr \<times> ustr \<times> ustr) \<times> ustr) list" where
  \<comment> \<open>three patterns in sequence, keeping what each one matched\<close>
  "seq3 p q r s =
    concat (map (\<lambda>(a, r1).
      concat (map (\<lambda>(b, r2).
        map (\<lambda>(c, r3). ((a, b, c), r3)) (r r2)) (q r1))) (p s))"

definition whole3 :: "(ustr \<times> ustr \<times> ustr) \<times> ustr \<Rightarrow> ustr \<times> ustr" where
  "whole3 x = (case x of ((a, b, c), r) \<Rightarrow> (a @ b @ c, r))"

definition named_month_re :: "ustr \<Rightarrow> ((ustr \<times> ustr \<times> ustr) \<times> ustr) list" where
  \<comment> \<open>\<open>(\d{1,2})\s*(yanvarya|...|dekabrya)\<close>: group 1 is the first component, group 2 the third\<close>
  "named_month_re = seq3 digits12 spaces0 (alts month_genitives)"

definition numeric_re :: "ustr \<Rightarrow> ((ustr \<times> ustr \<times> ustr) \<times> ustr) list" where
  \<comment> \<open>\<open>(\d{1,2})\.(\d{1,2})\<close>\<close>
  "numeric_re = seq3 digits12 (lit [46]) digits12"

definition date_re :: matcher where
  \<comment> \<open>the pattern of \<open>re.sub\<close>: the three keywords, then the named month, then the numeric form\<close>
  "date_re s =
    alts [kw_zavtra, kw_segodnya, kw_poslezavtra] s
    @ map whole3 (named_month_re s)
    @ map whole3 (numeric_re s)"

fun re_search :: "(ustr \<Rightarrow> ('m \<times> ustr) list) \<Rightarrow> ustr \<Rightarrow> (ustr \<times> 'm \<times> ustr) option" where
  \<comment> \<open>\<open>re.search\<close>: the first position with a match; the text before it, the match, the rest\<close>
  "re_search p [] = (case p [] of [] \<Rightarrow> None | (m, r) # _ \<Rightarrow> Some ([], m, r))"
| "re_search p (c # cs) =
    (case p (c # cs) of
       (m, r) # _ \<Rightarrow> Some ([], m, r)
     | [] \<Rightarrow> (case re_search p cs of
               None \<Rightarrow> None
             | Some (pre, m, r) \<Rightarrow> Some (c # pre, m, r)))"

definition re_sub1 :: "matcher \<Rightarrow> ustr \<Rightarrow> ustr" where
  \<comment> \<open>\<open>re.sub(p, '', s, count=1)\<close>\<close>
  "re_sub1 p s = (case re_search p s of None \<Rightarrow> s | Some (pre, m, r) \<Rightarrow> pre @ r)"

section \<open>Calendar dates\<close>

text \<open>
  A \<open>datetime\<close> in UTC. Only its date is modelled: the time of day of \<open>now\<close> is carried
  along by \<open>timedelta\<close> arithmetic and dropped by the format \<open>%Y-%m-%dT00:00:00\<close>.
\<close>

record date =
  year :: nat
  month :: nat
  day :: nat

datatype py_error = ValueError | OverflowError

definition is_leap :: "nat \<Rightarrow> bool" where
  "is_leap y = (if y mod 400 = 0 then True else if y mod 100 = 0 then False else y mod 4 = 0)"

definition days_in_month :: "nat \<Rightarrow> nat \<Rightarrow> nat" where
  "days_in_month y m =
    (if m = 2 then (if is_leap y then 29 else 28)
     else if m = 4 \<or> m = 6 \<or> m = 9 \<or> m = 11 then 30 else 31)"

definition valid_date :: "date \<Rightarrow> bool" where
  "valid_date d =
    (1 \<le> year d \<and> year d \<le> 9999 \<and> 1 \<le> month d \<and> month d \<le> 12 \<and>
     1 \<le> day d \<and> day d \<le> days_in_month (year d) (month d))"

definition datetime :: "nat \<Rightarrow> nat \<Rightarrow> nat \<Rightarrow> py_error + date" where
  \<comment> \<open>the constructor \<open>datetime(year, month, day, tzinfo=timezone.utc)\<close>\<close>
  "datetime y m d =
    (let r = \<lparr>year = y, month = m, day = d\<rparr> in if valid_date r then Inr r else Inl ValueError)"

definition next_day :: "date \<Rightarrow> py_error + date" where
  \<comment> \<open>\<open>d + timedelta(days=1)\<close>; past 9999-12-31 it raises OverflowError\<close>
  "next_day d =
    (if day d < days_in_month (year d) (month d) then Inr (d\<lparr>day := day d + 1\<rparr>)
     else if month d < 12 then Inr (d\<lparr>month := month d + 1, day := 1\<rparr>)
     else if year d < 9999 then Inr \<lparr>year = year d + 1, month = 1, day = 1\<rparr>
     else Inl OverflowError)"

fun add_days :: "date \<Rightarrow> nat \<Rightarrow> py_error + date" where
  \<comment> \<open>\<open>d + timedelta(days=n)\<close>\<close>
  "add_days d 0 = Inr d"
| "add_days d (Suc n) = (case add_days d n of Inl e \<Rightarrow> Inl e | Inr d' \<Rightarrow> next_day d')"

definition days_before_year :: "nat \<Rightarrow> nat" where
  "days_before_year y = (let p = y - 1 in p * 365 + p div 4 - p div 100 + p div 400)"

definition days_before_month :: "nat \<Rightarrow> nat \<Rightarrow> nat" where
  "days_before_month y m = sum_list (map (days_in_month y) [1..<m])"

definition toordinal :: "date \<Rightarrow> nat" where
  \<comment> \<open>the day number of a date, 0001-01-01 being day 1\<close>
  "toordinal d = days_before_year (year d) + days_before_month (year d) (month d) + day d"

definition dec2 :: "nat \<Rightarrow> ustr" where
  "dec2 n = [48 + n div 10 mod 10, 48 + n mod 10]"

definition dec4 :: "nat \<Rightarrow> ustr" where
  "dec4 n = [48 + n div 1000 mod 10, 48 + n div 100 mod 10, 48 + n div 10 mod 10, 48 + n mod 10]"

definition strftime_midnight :: "date \<Rightarrow> ustr" where
  \<comment> \<open>\<open>strftime("%Y-%m-%dT00:00:00")\<close>; the year is written with four digits, which is what
      every platform prints from the year 1000 on\<close>
  "strftime_midnight d =
    dec4 (year d) @ [45] @ dec2 (month d) @ [45] @ dec2 (day d) @ [84, 48, 48, 58, 48, 48, 58, 48, 48]"

section \<open>Errors as values\<close>

definition and_then :: "'e + 'a \<Rightarrow> ('a \<Rightarrow> 'e + 'b) \<Rightarrow> 'e + 'b" where
  \<comment> \<open>run the next statement unless the previous one raised\<close>
  "and_then x f = (case x of Inl e \<Rightarrow> Inl e | Inr v \<Rightarrow> f v)"


section \<open>The date search of \<open>smart_get_meetings\<close>\<close>

definition relative_day :: "ustr \<Rightarrow> date \<Rightarrow> py_error + date option" where
  \<comment> \<open>the \<open>if\<close>/\<open>elif\<close> chain over the three keywords, in the order of the source\<close>
  "relative_day lower_query now =
    (if str_in kw_zavtra lower_query then and_then (add_days now 1) (\<lambda>t. Inr (Some t))
     else if str_in kw_segodnya lower_query then Inr (Some now)
     else if str_in kw_poslezavtra lower_query then and_then (add_days now 2) (\<lambda>t. Inr (Some t))
     else Inr None)"

definition infer_year :: "date \<Rightarrow> nat \<Rightarrow> nat" where
  \<comment> \<open>\<open>now.year if month >= now.month else now.year + 1\<close>\<close>
  "infer_year now m = (if m \<ge> month now then year now else year now + 1)"

definition named_month_day :: "ustr \<Rightarrow> date \<Rightarrow> date option \<Rightarrow> py_error + date option" where
  \<comment> \<open>\<open>date_match\<close>: the constructor's ValueError is not caught here\<close>
  "named_month_day lower_query now target_date =
    (case re_search named_month_re lower_query of
       Some (pre, (g1, ws, g2), rest) \<Rightarrow>
         if target_date = None then
           (let d = py_int g1;
                m = (case map_of RU_MONTHS g2 of Some i \<Rightarrow> i | None \<Rightarrow> month now);
                y = infer_year now m
            in and_then (datetime y m d) (\<lambda>t. Inr (Some t)))
         else Inr target_date
     | None \<Rightarrow> Inr target_date)"

definition numeric_day_month :: "ustr \<Rightarrow> date \<Rightarrow> date option \<Rightarrow> py_error + date option" where
  \<comment> \<open>\<open>num_date_match\<close>: \<open>try\<close> ... \<open>except ValueError: pass\<close> leaves the target as it was\<close>
  "numeric_day_month lower_query now target_date =
    (case re_search numeric_re lower_query of
       Some (pre, (g1, dot, g2), rest) \<Rightarrow>
         if target_date = None then
           (let d = py_int g1;
                m = py_int g2;
                y = infer_year now m
            in case datetime y m d of
                 Inr t \<Rightarrow> Inr (Some t)
               | Inl ValueError \<Rightarrow> Inr target_date
               | Inl e \<Rightarrow> Inl e)
         else Inr target_date
     | None \<Rightarrow> Inr target_date)"

definition resolve_target_date :: "ustr \<Rightarrow> date \<Rightarrow> py_error + date option" where
  \<comment> \<open>the value of \<open>target_date\<close> when line 157 is reached\<close>
  "resolve_target_date lower_query now =
    and_then (relative_day lower_query now) (\<lambda>t1.
    and_then (named_month_day lower_query now t1) (\<lambda>t2.
    numeric_day_month lower_query now t2))"

definition residual_query :: "ustr \<Rightarrow> ustr option" where
  \<comment> \<open>\<open>re.sub(..., '', lower_query, count=1).strip()\<close>, and \<open>None\<close> when that is empty\<close>
  "residual_query lower_query =
    (let q = strip (re_sub1 date_re lower_query) in if q = [] then None else Some q)"

definition smart_filter ::
  "date \<Rightarrow> ustr option \<Rightarrow> ustr option \<Rightarrow> ustr option \<Rightarrow> py_error + (ustr option \<times> ustr option \<times> ustr option)" where
  \<comment> \<open>lines 127 to 162: the arguments \<open>(time_min, time_max, query)\<close> handed to \<open>get_meetings\<close>\<close>
  "smart_filter now query time_min time_max =
    (case query of
       None \<Rightarrow> Inr (time_min, time_max, query)
     | Some q \<Rightarrow>
         if q = [] then Inr (time_min, time_max, query)
         else
           (let lower_query = str_lower q in
            and_then (resolve_target_date lower_query now) (\<lambda>target_date.
              case target_date of
                None \<Rightarrow> Inr (time_min, time_max, query)
              | Some t \<Rightarrow>
                  and_then (next_day t) (\<lambda>t'.
                    Inr (Some (strftime_midnight t), Some (strftime_midnight t'),
                         residual_query lower_query)))))"

section \<open>The meeting store\<close>

text \<open>
  The table \<open>meetings\<close> is the list of its rows in insertion order. Text is compared as
  SQLite compares it under the default collation: code point by code point.
\<close>

record meeting =
  user_id :: int
  summary :: ustr
  start_time :: ustr
  duration_minutes :: int
  location :: "ustr option"

type_synonym result_row = "ustr \<times> ustr \<times> int \<times> ustr option"

definition ascii_fold :: "nat \<Rightarrow> nat" where
  "ascii_fold c = (if 65 \<le> c \<and> c \<le> 90 then c + 32 else c)"

fun like :: "ustr \<Rightarrow> ustr \<Rightarrow> bool" where
  \<comment> \<open>\<open>text LIKE pattern\<close> of SQLite without ICU: \<open>%\<close> is any run of characters, \<open>_\<close> any one
      character, and letters are folded in the ASCII range only\<close>
  "like [] [] = True"
| "like [] (c # cs) = False"
| "like (p # ps) [] = (p = 37 \<and> like ps [])"
| "like (p # ps) (c # cs) =
    (if p = 37 then like ps (c # cs) \<or> like (p # ps) cs
     else (p = 95 \<or> ascii_fold p = ascii_fold c) \<and> like ps cs)"

definition like_contains :: "ustr \<Rightarrow> ustr option \<Rightarrow> bool" where
  \<comment> \<open>\<open>column LIKE '%query%'\<close>; on a NULL column the comparison is not true\<close>
  "like_contains query col = (case col of None \<Rightarrow> False | Some s \<Rightarrow> like ([37] @ query @ [37]) s)"

definition query_matches :: "ustr \<Rightarrow> meeting \<Rightarrow> bool" where
  \<comment> \<open>\<open>(summary LIKE ? OR location LIKE ?)\<close>\<close>
  "query_matches query r = (like_contains query (Some (summary r)) \<or> like_contains query (location r))"

definition when_given :: "ustr option \<Rightarrow> (ustr \<Rightarrow> bool) \<Rightarrow> bool" where
  \<comment> \<open>\<open>if x: sql += ...\<close>: the condition is added for a non-empty argument only\<close>
  "when_given x cond = (case x of None \<Rightarrow> True | Some t \<Rightarrow> if t = [] then True else cond t)"

definition selected :: "int \<Rightarrow> ustr option \<Rightarrow> ustr option \<Rightarrow> ustr option \<Rightarrow> meeting \<Rightarrow> bool" where
  \<comment> \<open>the WHERE clause that \<open>get_meetings\<close> assembles\<close>
  "selected uid time_min time_max query r =
    (user_id r = uid \<and>
     when_given time_min (\<lambda>t. start_time r \<ge> t) \<and>
     when_given time_max (\<lambda>t. start_time r < t) \<and>
     when_given query (\<lambda>q. query_matches q r))"

definition result_of :: "meeting \<Rightarrow> result_row" where
  "result_of r = (summary r, start_time r, duration_minutes r, location r)"

definition get_meetings :: "meeting list \<Rightarrow> int \<Rightarrow> ustr option \<Rightarrow> ustr option \<Rightarrow> ustr option \<Rightarrow> result_row list" where
  \<comment> \<open>\<open>ORDER BY start_time\<close>; rows with equal start times are kept in insertion order\<close>
  "get_meetings db uid time_min time_max query =
    map result_of (sort_key start_time (filter (selected uid time_min time_max query) db))"

definition smart_get_meetings ::
  "meeting list \<Rightarrow> date \<Rightarrow> int \<Rightarrow> ustr option \<Rightarrow> ustr option \<Rightarrow> ustr option \<Rightarrow> py_error + result_row list" where
  "smart_get_meetings db now uid query time_min time_max =
    and_then (smart_filter now query time_min time_max) (\<lambda>(tmin, tmax, q).
      Inr (get_meetings db uid tmin tmax q))"


record event =
  ev_summary :: ustr
  ev_location :: ustr
  ev_start :: ustr


definition ascii_digits :: "ustr \<Rightarrow> bool" where
  "ascii_digits s = list_all (\<lambda>c. 48 \<le> c \<and> c \<le> 57) s"

definition ascii_val :: "ustr \<Rightarrow> nat" where
  "ascii_val s = foldl (\<lambda>a c. 10 * a + (c - 48)) 0 s"

definition iso_timestamp :: "ustr \<Rightarrow> bool" where
  \<comment> \<open>the texts \<open>YYYY-MM-DDTHH:MM:SS\<close> that name a date of the calendar and a time of the day.
      \<open>datetime.fromisoformat\<close> reads each of them in every version of Python that has it,
      and raises on a text that does not begin with a digit; it is the test used on the
      concrete stores below, on whose start times the two agree\<close>
  "iso_timestamp s =
    (length s = 19 \<and>
     ascii_digits (take 4 s @ take 2 (drop 5 s) @ take 2 (drop 8 s)
                   @ take 2 (drop 11 s) @ take 2 (drop 14 s) @ take 2 (drop 17 s)) \<and>
     s ! 4 = 45 \<and> s ! 7 = 45 \<and> s ! 10 = 84 \<and> s ! 13 = 58 \<and> s ! 16 = 58 \<and>
     valid_date \<lparr>year = ascii_val (take 4 s), month = ascii_val (take 2 (drop 5 s)),
                 day = ascii_val (take 2 (drop 8 s))\<rparr> \<and>
     ascii_val (take 2 (drop 11 s)) < 24 \<and> ascii_val (take 2 (drop 14 s)) < 60 \<and>
     ascii_val (take 2 (drop 17 s)) < 60)"


definition update_meeting_location :: "meeting list \<Rightarrow> int \<Rightarrow> ustr \<Rightarrow> ustr \<Rightarrow> ustr \<Rightarrow> meeting list" where
  \<comment> \<open>\<open>UPDATE meetings SET location = ? WHERE user_id = ? AND summary = ? AND start_time = ?\<close>\<close>
  "update_meeting_location db uid s st new_location =
    map (\<lambda>r. if user_id r = uid \<and> summary r = s \<and> start_time r = st
             then r\<lparr>location := Some new_location\<rparr> else r) db"

definition set_summary :: "meeting list \<Rightarrow> int \<Rightarrow> ustr \<Rightarrow> ustr \<Rightarrow> ustr \<Rightarrow> meeting list" where
  \<comment> \<open>\<open>UPDATE meetings SET summary = ? WHERE user_id = ? AND summary = ? AND start_time = ?\<close>\<close>
  "set_summary db uid s st new_summary =
    map (\<lambda>r. if user_id r = uid \<and> summary r = s \<and> start_time r = st
             then r\<lparr>summary := new_summary\<rparr> else r) db"

definition update_meeting_summary ::
  "meeting list \<Rightarrow> date \<Rightarrow> int \<Rightarrow> ustr \<Rightarrow> ustr \<Rightarrow> py_error + (meeting list \<times> bool \<times> result_row list option)" where
  \<comment> \<open>the store after the call, and the pair the function returns\<close>
  "update_meeting_summary db now uid old_query new_summary =
    and_then (smart_get_meetings db now uid (Some old_query) None None) (\<lambda>meetings.
      case meetings of
        [] \<Rightarrow> Inr (db, False, None)
      | [(old_summary, st, _, _)] \<Rightarrow> Inr (set_summary db uid old_summary st new_summary, True, None)
      | _ \<Rightarrow> Inr (db, False, Some meetings))"

section \<open>The branches of \<open>handle_text\<close>\<close>

text \<open>
  What the handler answers. \<open>Route\<close> stands for the call of \<open>reply_with_route\<close> on the
  event, \<open>Ambiguous\<close> for the numbered list of the candidates, \<open>Apology\<close> for the answer
  of the handler's \<open>except Exception\<close>.
\<close>

datatype reply =
  Clarify
| NotFound
| Route event
| LocationUpdated
| SummaryUpdated
| Ambiguous "result_row list"
| Apology

definition renders :: "(ustr \<Rightarrow> bool) \<Rightarrow> result_row list \<Rightarrow> bool" where
  \<comment> \<open>the loop that prints the candidates calls \<open>fromisoformat\<close> on every start time\<close>
  "renders isofmt ms = list_all (\<lambda>(s, st, d, loc). isofmt st) ms"



definition handle_update_location ::
  "(ustr \<Rightarrow> bool) \<Rightarrow> meeting list \<Rightarrow> date \<Rightarrow> int \<Rightarrow> ustr option \<Rightarrow> ustr option \<Rightarrow> meeting list \<times> reply" where
  \<comment> \<open>\<open>action == "update_location"\<close>, from the intent's \<open>query\<close> and \<open>location\<close>\<close>
  "handle_update_location isofmt db now uid query loc =
    (case (query, loc) of
       (Some qt, Some l) \<Rightarrow>
         if qt = [] \<or> l = [] then (db, Clarify)
         else
           (case smart_get_meetings db now uid query None None of
              Inl e \<Rightarrow> (db, Apology)
            | Inr [] \<Rightarrow> (db, NotFound)
            | Inr [(s, st, _, _)] \<Rightarrow> (update_meeting_location db uid s st l, LocationUpdated)
            | Inr ms \<Rightarrow> (db, if renders isofmt ms then Ambiguous ms else Apology))
     | _ \<Rightarrow> (db, Clarify))"

definition handle_update_summary ::
  "(ustr \<Rightarrow> bool) \<Rightarrow> meeting list \<Rightarrow> date \<Rightarrow> int \<Rightarrow> ustr option \<Rightarrow> ustr option \<Rightarrow> meeting list \<times> reply" where
  \<comment> \<open>\<open>action == "update_summary"\<close>, from the intent's \<open>query\<close> and \<open>new_summary\<close>\<close>
  "handle_update_summary isofmt db now uid query new_summary =
    (case (query, new_summary) of
       (Some qt, Some n) \<Rightarrow>
         if qt = [] \<or> n = [] then (db, Clarify)
         else
           (case update_meeting_summary db now uid qt n of
              Inl e \<Rightarrow> (db, Apology)
            | Inr (db', success, meetings) \<Rightarrow>
                if success then (db', SummaryUpdated)
                else
                  (case meetings of
                     None \<Rightarrow> (db', NotFound)
                   | Some ms \<Rightarrow>
                       if length ms > 1
                       then (db', if renders isofmt ms then Ambiguous ms else Apology)
                       else (db', NotFound)))
     | _ \<Rightarrow> (db, Clarify))"

section \<open>The substring filter as the specification words it\<close>




section \<open>The residual text as the specification words it\<close>

text \<open>
  The specification takes the first occurrence of the matched date substring out of the
  lower-cased text. \<open>date_phrase\<close> is the text that decides \<open>target_date\<close> in the code, with
  what stands before and after it: the first occurrence of the keyword whose test
  succeeds, or else the match of the named-month search, or else that of the numeric
  search. \<open>spec_residual\<close> is the residual text the specification describes for a phrase.
\<close>

fun remove_first :: "ustr \<Rightarrow> ustr \<Rightarrow> ustr" where
  "remove_first sub [] = []"
| "remove_first sub (c # cs) =
    (if prefix sub (c # cs) then drop (length sub) (c # cs) else c # remove_first sub cs)"

definition spec_residual :: "ustr \<Rightarrow> ustr \<Rightarrow> ustr option" where
  "spec_residual phrase lower_query =
    (let r = strip (remove_first phrase lower_query) in if r = [] then None else Some r)"

definition date_phrase :: "ustr \<Rightarrow> (ustr \<times> ustr \<times> ustr) option" where
  "date_phrase lower_query =
    (if str_in kw_zavtra lower_query then re_search (lit kw_zavtra) lower_query
     else if str_in kw_segodnya lower_query then re_search (lit kw_segodnya) lower_query
     else
       (case re_search named_month_re lower_query of
          Some (pre, (g1, ws, g2), rest) \<Rightarrow> Some (pre, g1 @ ws @ g2, rest)
        | None \<Rightarrow>
            (case re_search numeric_re lower_query of
               Some (pre, (g1, dot, g2), rest) \<Rightarrow> Some (pre, g1 @ dot @ g2, rest)
             | None \<Rightarrow> None)))"

section \<open>Evaluation on concrete phrases\<close>

declare re_search.simps [simp del]

lemma digit_val_low:
  "c < 1632 \<Longrightarrow> digit_val c = (if 48 \<le> c \<and> c < 58 then Some (c - 48) else None)"
  unfolding digit_val_def nd_zeros_def by simp

lemma is_digit_low: "c < 1632 \<Longrightarrow> is_digit c = (48 \<le> c \<and> c < 58)"
  by (simp add: is_digit_def digit_val_low)

lemma lower_simple_low: "c < 192 \<Longrightarrow> lower_simple c = (if 65 \<le> c \<and> c \<le> 90 then c + 32 else c)"
  unfolding lower_simple_def lower_table_def by simp

lemma lower_simple_cyrillic:
  "1024 \<le> c \<Longrightarrow> c \<le> 1119 \<Longrightarrow>
     lower_simple c = (if c \<le> 1039 then c + 80 else if c \<le> 1071 then c + 32 else c)"
  unfolding lower_simple_def lower_table_def by simp

lemmas lower_eval = str_lower_def lower_full_def lower_simple_low lower_simple_cyrillic

named_theorems matcher_eval

lemmas [matcher_eval] = lit_def alts_def digit1_def digits12_def seq3_def whole3_def
  named_month_re_def numeric_re_def date_re_def month_genitives_def is_digit_low is_space_def
  re_search.simps

section \<open>Substrings\<close>

lemma str_in_iff: "str_in sub s \<longleftrightarrow> (\<exists>pre post. s = pre @ sub @ post)"
proof (induction s)
  case Nil
  then show ?case by auto
next
  case (Cons c cs)
  show ?case
  proof
    assume "str_in sub (c # cs)"
    then consider "prefix sub (c # cs)" | "str_in sub cs" by auto
    then show "\<exists>pre post. c # cs = pre @ sub @ post"
    proof cases
      case 1
      then obtain post where "c # cs = sub @ post" by (auto simp: prefix_def)
      then have "c # cs = [] @ sub @ post" by simp
      then show ?thesis by blast
    next
      case 2
      with Cons.IH obtain pre post where "cs = pre @ sub @ post" by blast
      then have "c # cs = (c # pre) @ sub @ post" by simp
      then show ?thesis by blast
    qed
  next
    assume "\<exists>pre post. c # cs = pre @ sub @ post"
    then obtain pre post where eq: "c # cs = pre @ sub @ post" by blast
    show "str_in sub (c # cs)"
    proof (cases pre)
      case Nil
      with eq have "prefix sub (c # cs)" by (simp add: prefix_def)
      then show ?thesis by simp
    next
      case (Cons a pre')
      with eq have "cs = pre' @ sub @ post" by simp
      with Cons.IH have "str_in sub cs" by blast
      then show ?thesis by simp
    qed
  qed
qed

lemma poslezavtra_has_zavtra: "str_in kw_poslezavtra s \<Longrightarrow> str_in kw_zavtra s"
proof -
  assume "str_in kw_poslezavtra s"
  then obtain pre post where "s = pre @ kw_poslezavtra @ post" by (auto simp: str_in_iff)
  then have "s = (pre @ [1087, 1086, 1089, 1083, 1077]) @ kw_zavtra @ post" by simp
  then show ?thesis unfolding str_in_iff by blast
qed

section \<open>The relative-day keywords\<close>

lemma named_keeps_target: "named_month_day lq now (Some t) = Inr (Some t)"
  by (simp add: named_month_day_def split: option.splits prod.splits)

lemma numeric_keeps_target: "numeric_day_month lq now (Some t) = Inr (Some t)"
  by (simp add: numeric_day_month_def split: option.splits prod.splits)

lemma target_of_poslezavtra:
  "str_in kw_poslezavtra lq \<Longrightarrow>
   resolve_target_date lq now = and_then (add_days now 1) (\<lambda>t. Inr (Some t))"
  by (auto simp: resolve_target_date_def relative_day_def poslezavtra_has_zavtra and_then_def
      named_keeps_target numeric_keeps_target split: sum.splits)

lemma residual_poslezavtra: "residual_query kw_poslezavtra = None"
  by (simp add: residual_query_def re_sub1_def strip_def matcher_eval)

text \<open>
  Claim C1, where the code departs from it: the test for "zavtra" comes first in the
  \<open>if\<close>/\<open>elif\<close> chain and "poslezavtra" contains "zavtra", so the branch that adds two
  days is never taken. Every phrase whose lower-cased text contains "poslezavtra" is
  given the interval of the day after \<open>now\<close>, not of the second day after it.
\<close>

theorem poslezavtra_resolves_to_next_day:
  "str_in kw_poslezavtra (str_lower q) \<Longrightarrow>
   smart_filter now (Some q) time_min time_max =
     and_then (add_days now 1) (\<lambda>t.
       and_then (next_day t) (\<lambda>t'.
         Inr (Some (strftime_midnight t), Some (strftime_midnight t'),
              residual_query (str_lower q))))"
proof -
  assume h: "str_in kw_poslezavtra (str_lower q)"
  then have "q \<noteq> []" by (auto simp: str_lower_def)
  then show ?thesis
    by (simp add: smart_filter_def target_of_poslezavtra [OF h] and_then_def split: sum.splits)
qed

theorem poslezavtra_resolves_to_next_day_witness:
  "smart_filter \<lparr>year = 2025, month = 6, day = 10\<rparr> (Some kw_poslezavtra) None None =
     Inr (Some [50, 48, 50, 53, 45, 48, 54, 45, 49, 49, 84, 48, 48, 58, 48, 48, 58, 48, 48],
          Some [50, 48, 50, 53, 45, 48, 54, 45, 49, 50, 84, 48, 48, 58, 48, 48, 58, 48, 48],
          None)"
  using poslezavtra_resolves_to_next_day
    [of kw_poslezavtra "\<lparr>year = 2025, month = 6, day = 10\<rparr>" None None]
  by (simp add: lower_eval and_then_def next_day_def days_in_month_def
      strftime_midnight_def dec2_def dec4_def residual_poslezavtra)

section \<open>Invalid calendar dates\<close>

lemma map_of_RU_MONTHS_fevralya:
  "map_of RU_MONTHS [1092, 1077, 1074, 1088, 1072, 1083, 1103] = Some 2"
  by (simp add: RU_MONTHS_def month_forms_def upt_rec)

lemma datetime_31_feb: "datetime y 2 31 = Inl ValueError"
  by (simp add: datetime_def valid_date_def days_in_month_def)

lemma py_int_31: "py_int [51, 49] = 31"
  by (simp add: py_int_def digit_val_low)

lemma py_int_02: "py_int [48, 50] = 2"
  by (simp add: py_int_def digit_val_low)

lemma target_31_fevralya:
  "resolve_target_date [51, 49, 32, 1092, 1077, 1074, 1088, 1072, 1083, 1103] now = Inl ValueError"
  by (simp add: resolve_target_date_def relative_day_def named_month_day_def matcher_eval
      and_then_def py_int_31 map_of_RU_MONTHS_fevralya datetime_31_feb)

lemma target_31_02: "resolve_target_date [51, 49, 46, 48, 50] now = Inr None"
  by (simp add: resolve_target_date_def relative_day_def named_month_day_def
      numeric_day_month_def matcher_eval and_then_def py_int_31 py_int_02 datetime_31_feb)

text \<open>
  Claim C10: the phrase "31 fevralya" (the 31st of February, written with the month's
  name) makes the lookup raise ValueError, whatever the store, the clock and the caller's
  bounds are, while the numeric phrase "31.02" is swallowed by the guard of the numeric
  path and the lookup goes on with the caller's arguments.
\<close>

theorem named_month_invalid_day_raises:
  "smart_get_meetings db now uid
      (Some [51, 49, 32, 1092, 1077, 1074, 1088, 1072, 1083, 1103]) time_min time_max
     = Inl ValueError
   \<and> smart_get_meetings db now uid (Some [51, 49, 46, 48, 50]) time_min time_max
     = Inr (get_meetings db uid time_min time_max (Some [51, 49, 46, 48, 50]))"
  by (simp add: smart_get_meetings_def smart_filter_def lower_eval
      target_31_fevralya target_31_02 and_then_def)

section \<open>Matches of the patterns\<close>

lemma re_search_Some:
  "re_search p s = Some (pre, m, r) \<Longrightarrow>
     \<exists>t ms. s = pre @ t \<and> p t = (m, r) # ms \<and> (\<forall>j < length pre. p (drop j s) = [])"
proof (induction s arbitrary: pre)
  case Nil
  then show ?case by (auto simp: re_search.simps split: list.splits)
next
  case (Cons c cs)
  show ?case
  proof (cases "p (c # cs)")
    case Nil
    with Cons.prems obtain pre' where s: "re_search p cs = Some (pre', m, r)" and pre: "pre = c # pre'"
      by (auto simp: re_search.simps split: option.splits)
    from Cons.IH [OF s] obtain t ms where t: "cs = pre' @ t" "p t = (m, r) # ms"
      and e: "\<forall>j < length pre'. p (drop j cs) = []" by blast
    have "\<forall>j < length pre. p (drop j (c # cs)) = []"
    proof (intro allI impI)
      fix j assume "j < length pre"
      then show "p (drop j (c # cs)) = []"
        using Nil e pre by (cases j) auto
    qed
    with t pre show ?thesis by auto
  next
    case (Cons x xs)
    with Cons.prems show ?thesis by (auto simp: re_search.simps split: prod.splits)
  qed
qed

lemma re_search_None: "re_search p s = None \<Longrightarrow> j \<le> length s \<Longrightarrow> p (drop j s) = []"
proof (induction s arbitrary: j)
  case Nil
  then show ?case by (auto simp: re_search.simps split: list.splits)
next
  case (Cons c cs)
  from Cons.prems(1) have a: "p (c # cs) = []" and b: "re_search p cs = None"
    by (auto simp: re_search.simps split: list.splits option.splits)
  show ?case
  proof (cases j)
    case 0
    with a show ?thesis by simp
  next
    case (Suc k)
    with Cons.prems(2) Cons.IH [OF b, of k] show ?thesis by simp
  qed
qed

lemma re_search_found: "p t \<noteq> [] \<Longrightarrow> re_search p (pre @ t) \<noteq> None"
proof
  assume "p t \<noteq> []" and "re_search p (pre @ t) = None"
  from re_search_None [OF this(2), of "length pre"] this(1) show False by simp
qed

lemma lit_sound: "(m, r) \<in> set (lit w s) \<Longrightarrow> s = m @ r \<and> m = w"
  by (auto simp: lit_def prefix_def split: if_splits)

lemma alts_sound: "(m, r) \<in> set (alts ws s) \<Longrightarrow> s = m @ r \<and> m \<in> set ws"
  by (auto simp: alts_def dest: lit_sound)

lemma digit1_sound: "(m, r) \<in> set (digit1 s) \<Longrightarrow> s = m @ r \<and> (\<exists>c. m = [c] \<and> is_digit c)"
  by (auto simp: digit1_def split: list.splits if_splits)

lemma digits12_sound:
  "(m, r) \<in> set (digits12 s) \<Longrightarrow> s = m @ r \<and> m \<noteq> [] \<and> length m \<le> 2 \<and> list_all is_digit m"
  by (auto simp: digits12_def dest!: digit1_sound)

lemma spaces0_sound: "(m, r) \<in> set (spaces0 s) \<Longrightarrow> s = m @ r \<and> list_all is_space m"
  by (induction s arbitrary: m r) (auto split: if_splits)

lemma in_concat_map: "x \<in> set xs \<Longrightarrow> y \<in> set (f x) \<Longrightarrow> y \<in> set (concat (map f xs))"
  by auto

lemma seq3_iff:
  "((a, b, c), r) \<in> set (seq3 p q t s) \<longleftrightarrow>
     (\<exists>r1 r2. (a, r1) \<in> set (p s) \<and> (b, r2) \<in> set (q r1) \<and> (c, r) \<in> set (t r2))"
proof
  assume "((a, b, c), r) \<in> set (seq3 p q t s)"
  then show "\<exists>r1 r2. (a, r1) \<in> set (p s) \<and> (b, r2) \<in> set (q r1) \<and> (c, r) \<in> set (t r2)"
    by (auto simp: seq3_def)
next
  assume "\<exists>r1 r2. (a, r1) \<in> set (p s) \<and> (b, r2) \<in> set (q r1) \<and> (c, r) \<in> set (t r2)"
  then obtain r1 r2 where h: "(a, r1) \<in> set (p s)" "(b, r2) \<in> set (q r1)" "(c, r) \<in> set (t r2)"
    by blast
  from h(3) have 3: "((a, b, c), r) \<in> set (map (\<lambda>(c, r3). ((a, b, c), r3)) (t r2))"
    by force
  have 2: "((a, b, c), r) \<in> set (concat (map (\<lambda>(b, r2).
        map (\<lambda>(c, r3). ((a, b, c), r3)) (t r2)) (q r1)))"
    by (rule in_concat_map [OF h(2)]) (use 3 in simp)
  show "((a, b, c), r) \<in> set (seq3 p q t s)"
    unfolding seq3_def by (rule in_concat_map [OF h(1)]) (use 2 in simp)
qed

lemma named_month_re_sound:
  "((a, b, c), r) \<in> set (named_month_re s) \<Longrightarrow>
     s = a @ b @ c @ r \<and> a \<noteq> [] \<and> length a \<le> 2 \<and> list_all is_digit a \<and> list_all is_space b \<and> c \<in> set month_genitives"
  by (auto simp: named_month_re_def seq3_iff dest!: digits12_sound spaces0_sound alts_sound)

lemma numeric_re_sound:
  "((a, b, c), r) \<in> set (numeric_re s) \<Longrightarrow>
     s = a @ b @ c @ r \<and> a \<noteq> [] \<and> length a \<le> 2 \<and> list_all is_digit a \<and> b = [46]
       \<and> c \<noteq> [] \<and> length c \<le> 2 \<and> list_all is_digit c"
  by (auto simp: numeric_re_def seq3_iff dest!: digits12_sound lit_sound)

lemma date_re_sound: "(m, r) \<in> set (date_re s) \<Longrightarrow> s = m @ r \<and> m \<noteq> []"
  by (auto simp: date_re_def whole3_def dest!: alts_sound named_month_re_sound numeric_re_sound)

section \<open>A resolved date always has a match to remove\<close>

lemma date_re_keyword:
  "w \<in> {kw_zavtra, kw_segodnya, kw_poslezavtra} \<Longrightarrow> date_re (w @ post) \<noteq> []"
  by (auto simp: date_re_def alts_def lit_def)

lemma str_in_keyword_match:
  assumes "str_in w lq" and "w \<in> {kw_zavtra, kw_segodnya, kw_poslezavtra}"
  shows "re_search date_re lq \<noteq> None"
proof -
  from assms(1) obtain pre post where "lq = pre @ w @ post" by (auto simp: str_in_iff)
  moreover have "date_re (w @ post) \<noteq> []" by (rule date_re_keyword [OF assms(2)])
  ultimately show ?thesis using re_search_found [of date_re "w @ post" pre] by simp
qed

lemma named_match_is_date_match:
  assumes "re_search named_month_re lq = Some x"
  shows "re_search date_re lq \<noteq> None"
proof -
  obtain pre m r where x: "x = (pre, m, r)" by (cases x) auto
  from re_search_Some [OF assms [unfolded x]] obtain t ms where
    "lq = pre @ t" "named_month_re t = (m, r) # ms" by blast
  then have "lq = pre @ t" "date_re t \<noteq> []" by (auto simp: date_re_def)
  with re_search_found show ?thesis by blast
qed

lemma numeric_match_is_date_match:
  assumes "re_search numeric_re lq = Some x"
  shows "re_search date_re lq \<noteq> None"
proof -
  obtain pre m r where x: "x = (pre, m, r)" by (cases x) auto
  from re_search_Some [OF assms [unfolded x]] obtain t ms where
    "lq = pre @ t" "numeric_re t = (m, r) # ms" by blast
  then have "lq = pre @ t" "date_re t \<noteq> []" by (auto simp: date_re_def)
  with re_search_found show ?thesis by blast
qed

lemma relative_day_cases:
  "relative_day lq now = Inr (Some t) \<Longrightarrow> str_in kw_zavtra lq \<or> str_in kw_segodnya lq"
  by (auto simp: relative_day_def and_then_def poslezavtra_has_zavtra split: if_splits sum.splits)

lemma relative_day_None:
  "relative_day lq now = Inr None \<longleftrightarrow> \<not> str_in kw_zavtra lq \<and> \<not> str_in kw_segodnya lq"
  by (auto simp: relative_day_def and_then_def poslezavtra_has_zavtra split: if_splits sum.splits)

lemma resolve_unfold:
  "resolve_target_date lq now =
     (case relative_day lq now of
        Inl e \<Rightarrow> Inl e
      | Inr (Some t) \<Rightarrow> Inr (Some t)
      | Inr None \<Rightarrow>
          (case named_month_day lq now None of
             Inl e \<Rightarrow> Inl e
           | Inr (Some t) \<Rightarrow> Inr (Some t)
           | Inr None \<Rightarrow> numeric_day_month lq now None))"
  by (simp add: resolve_target_date_def and_then_def named_keeps_target numeric_keeps_target
      split: sum.splits option.splits)

lemmas date_eval = resolve_unfold relative_day_def named_month_day_def numeric_day_month_def
  matcher_eval and_then_def next_day_def days_in_month_def strftime_midnight_def dec2_def dec4_def
  residual_query_def re_sub1_def strip_def

lemma target_has_match:
  assumes "resolve_target_date lq now = Inr (Some t)"
  shows "re_search date_re lq \<noteq> None"
proof (cases "relative_day lq now")
  case (Inl e)
  with assms show ?thesis by (simp add: resolve_unfold)
next
  case (Inr t1)
  show ?thesis
  proof (cases t1)
    case (Some d)
    with Inr relative_day_cases have "str_in kw_zavtra lq \<or> str_in kw_segodnya lq" by blast
    then show ?thesis using str_in_keyword_match by blast
  next
    case None
    note rel = Inr [unfolded None]
    show ?thesis
    proof (cases "re_search named_month_re lq")
      case (Some x)
      then show ?thesis by (rule named_match_is_date_match)
    next
      case nm: None
      then have "named_month_day lq now None = Inr None" by (simp add: named_month_day_def)
      with assms rel have num: "numeric_day_month lq now None = Inr (Some t)"
        by (simp add: resolve_unfold)
      show ?thesis
      proof (cases "re_search numeric_re lq")
        case None
        with num show ?thesis by (simp add: numeric_day_month_def)
      next
        case (Some x)
        then show ?thesis by (rule numeric_match_is_date_match)
      qed
    qed
  qed
qed

lemma datetime_Inr: "datetime y m d = Inr t \<Longrightarrow> t = \<lparr>year = y, month = m, day = d\<rparr> \<and> valid_date t"
  by (auto simp: datetime_def Let_def split: if_splits)

lemma named_year:
  "named_month_day lq now None = Inr (Some t) \<Longrightarrow> year t = infer_year now (month t)"
  by (auto simp: named_month_day_def Let_def and_then_def split: option.splits sum.splits prod.splits dest!: datetime_Inr)

lemma numeric_year:
  "numeric_day_month lq now None = Inr (Some t) \<Longrightarrow> year t = infer_year now (month t)"
  by (auto simp: numeric_day_month_def Let_def split: option.splits sum.splits prod.splits py_error.splits dest!: datetime_Inr)

lemma inferred_year:
  assumes "\<not> str_in kw_zavtra lq" "\<not> str_in kw_segodnya lq"
    and "resolve_target_date lq now = Inr (Some t)"
  shows "year t = infer_year now (month t)"
proof -
  from assms(1,2) have "relative_day lq now = Inr None" by (simp add: relative_day_None)
  with assms(3) show ?thesis
    by (auto simp: resolve_unfold split: sum.splits option.splits dest: named_year numeric_year)
qed

lemma resolve_empty: "resolve_target_date [] now = Inr None"
  by (simp add: resolve_target_date_def relative_day_def named_month_day_def numeric_day_month_def
      and_then_def matcher_eval)

lemma re_sub1_date_shorter:
  assumes "re_search date_re s \<noteq> None"
  shows "length (re_sub1 date_re s) < length s"
proof -
  from assms obtain pre m r where f: "re_search date_re s = Some (pre, m, r)" by auto
  from re_search_Some [OF f] obtain t ms where "s = pre @ t" "date_re t = (m, r) # ms" by blast
  moreover from this(2) have "(m, r) \<in> set (date_re t)" by simp
  then have "t = m @ r \<and> m \<noteq> []" by (rule date_re_sound)
  ultimately show ?thesis using f by (simp add: re_sub1_def)
qed

lemma length_strip_le: "length (strip s) \<le> length s"
proof -
  have "length (strip s) \<le> length (dropWhile is_space s)"
    unfolding strip_def using length_dropWhile_le [of is_space "rev (dropWhile is_space s)"] by simp
  also have "\<dots> \<le> length s" by (rule length_dropWhile_le)
  finally show ?thesis .
qed

lemma lower_simple_not_304: "c \<noteq> 304 \<Longrightarrow> lower_simple c \<noteq> 304"
proof -
  assume c: "c \<noteq> 304"
  have tbl: "list_all (\<lambda>(lo, hi, step, t). 304 < t \<or> t + (hi - lo) < 304) lower_table"
    unfolding lower_table_def by simp
  show ?thesis
  proof (cases "find (\<lambda>(lo, hi, step, t). lo \<le> c \<and> c \<le> hi \<and> (c - lo) mod step = 0) lower_table")
    case None
    with c show ?thesis by (simp add: lower_simple_def)
  next
    case (Some e)
    obtain lo hi step t where e: "e = (lo, hi, step, t)" by (cases e) auto
    from Some e have "(lo, hi, step, t) \<in> set lower_table" "lo \<le> c" "c \<le> hi"
      by (auto simp: find_Some_iff in_set_conv_nth)
    with tbl have "304 < t \<or> t + (hi - lo) < 304" "lo \<le> c" "c \<le> hi"
      by (auto simp: list_all_iff)
    then have "t + (c - lo) \<noteq> 304" by auto
    with Some e show ?thesis by (simp add: lower_simple_def)
  qed
qed

lemma lower_from_no_304: "304 \<notin> set (lower_from before s)"
  by (induction s arbitrary: before) (auto simp: lower_full_def lower_simple_not_304)

lemma lower_from_length: "304 \<notin> set s \<Longrightarrow> length (lower_from before s) = length s"
  by (induction s arbitrary: before) (auto simp: lower_full_def)

lemma set_strip: "set (strip s) \<subseteq> set s"
proof -
  have "set (strip s) \<subseteq> set (dropWhile is_space s)"
    unfolding strip_def using set_dropWhileD [of _ is_space "rev (dropWhile is_space s)"] by auto
  also have "\<dots> \<subseteq> set s" using set_dropWhileD [of _ is_space s] by auto
  finally show ?thesis .
qed

lemma residual_not_original:
  assumes "re_search date_re (str_lower q) \<noteq> None"
  shows "residual_query (str_lower q) \<noteq> Some q"
proof
  assume "residual_query (str_lower q) = Some q"
  then have q: "strip (re_sub1 date_re (str_lower q)) = q"
    by (auto simp: residual_query_def Let_def split: if_splits)
  from assms obtain pre m r where f: "re_search date_re (str_lower q) = Some (pre, m, r)" by auto
  from re_search_Some [OF f] obtain t ms where t: "str_lower q = pre @ t" "date_re t = (m, r) # ms"
    by blast
  from t(2) have "(m, r) \<in> set (date_re t)" by simp
  then have "t = m @ r" using date_re_sound by blast
  with t(1) f have "set (re_sub1 date_re (str_lower q)) \<subseteq> set (str_lower q)"
    by (auto simp: re_sub1_def)
  with q set_strip [of "re_sub1 date_re (str_lower q)"] have "set q \<subseteq> set (str_lower q)" by auto
  then have "304 \<notin> set q" using lower_from_no_304 [of "[]" q] by (auto simp: str_lower_def)
  then have same: "length (str_lower q) = length q" by (simp add: str_lower_def lower_from_length)
  from q have "length q \<le> length (re_sub1 date_re (str_lower q))"
    using length_strip_le [of "re_sub1 date_re (str_lower q)"] by simp
  also have "\<dots> < length (str_lower q)" by (rule re_sub1_date_shorter [OF assms])
  finally show False using same by simp
qed

section \<open>Year inference\<close>

text \<open>
  Claim C5: when no relative-day keyword is present and a date is resolved (by the
  named-month or by the numeric pattern), its year is the current year if its month is
  not before the current month, and the next year otherwise. With the clock on any day
  of June 2025, "8 noyabrya" resolves to 2025-11-08 and "3 marta" to 2026-03-03.
\<close>

theorem year_of_month_without_year:
  "(\<not> str_in kw_zavtra lq \<and> \<not> str_in kw_segodnya lq \<and> resolve_target_date lq now = Inr (Some t)
      \<longrightarrow> year t = (if month now \<le> month t then year now else year now + 1))
   \<and> resolve_target_date [56, 32, 1085, 1086, 1103, 1073, 1088, 1103] \<lparr>year = 2025, month = 6, day = dd\<rparr>
       = Inr (Some \<lparr>year = 2025, month = 11, day = 8\<rparr>)
   \<and> resolve_target_date [51, 32, 1084, 1072, 1088, 1090, 1072] \<lparr>year = 2025, month = 6, day = dd\<rparr>
       = Inr (Some \<lparr>year = 2026, month = 3, day = 3\<rparr>)"
proof -
  have 1: "\<not> str_in kw_zavtra lq \<and> \<not> str_in kw_segodnya lq \<and> resolve_target_date lq now = Inr (Some t)
      \<longrightarrow> year t = (if month now \<le> month t then year now else year now + 1)"
    using inferred_year [of lq now t] by (simp add: infer_year_def)
  have m11: "map_of RU_MONTHS [1085, 1086, 1103, 1073, 1088, 1103] = Some 11"
    by (simp add: RU_MONTHS_def month_forms_def upt_rec)
  have m3: "map_of RU_MONTHS [1084, 1072, 1088, 1090, 1072] = Some 3"
    by (simp add: RU_MONTHS_def month_forms_def upt_rec)
  have 2: "resolve_target_date [56, 32, 1085, 1086, 1103, 1073, 1088, 1103] \<lparr>year = 2025, month = 6, day = dd\<rparr>
       = Inr (Some \<lparr>year = 2025, month = 11, day = 8\<rparr>)"
    by (simp add: resolve_unfold relative_day_def named_month_day_def matcher_eval m11 py_int_def
        digit_val_low infer_year_def datetime_def valid_date_def days_in_month_def and_then_def)
  have 3: "resolve_target_date [51, 32, 1084, 1072, 1088, 1090, 1072] \<lparr>year = 2025, month = 6, day = dd\<rparr>
       = Inr (Some \<lparr>year = 2026, month = 3, day = 3\<rparr>)"
    by (simp add: resolve_unfold relative_day_def named_month_day_def matcher_eval m3 py_int_def
        digit_val_low infer_year_def datetime_def valid_date_def days_in_month_def and_then_def)
  from 1 2 3 show ?thesis by blast
qed

theorem year_of_month_without_year_witness:
  "\<not> str_in kw_zavtra [49, 53, 46, 48, 50] \<and> \<not> str_in kw_segodnya [49, 53, 46, 48, 50]
   \<and> resolve_target_date [49, 53, 46, 48, 50] \<lparr>year = 2025, month = 6, day = 10\<rparr>
       = Inr (Some \<lparr>year = 2026, month = 2, day = 15\<rparr>)
   \<and> year \<lparr>year = 2026, month = 2, day = 15\<rparr> = 2025 + 1"
  using year_of_month_without_year
    [of "[49, 53, 46, 48, 50]" "\<lparr>year = 2025, month = 6, day = 10\<rparr>"
        "\<lparr>year = 2026, month = 2, day = 15\<rparr>"]
  by (simp add: resolve_unfold relative_day_def named_month_day_def numeric_day_month_def
      matcher_eval py_int_def digit_val_low infer_year_def datetime_def valid_date_def
      days_in_month_def is_leap_def)

section \<open>The guard of the numeric path\<close>

text \<open>
  Claim C6, as the code has it: in a phrase without a relative-day keyword and without
  a named-month phrase, a first numeric D.M phrase that is not a date of the calendar
  resolves to no date; the lookup does not raise and runs with the caller's bounds and
  the unchanged query text, exactly as when nothing date-like is found.
\<close>

theorem invalid_numeric_date_is_no_date:
  assumes "\<not> str_in kw_zavtra (str_lower q)" "\<not> str_in kw_segodnya (str_lower q)"
    and "re_search named_month_re (str_lower q) = None"
    and "re_search numeric_re (str_lower q) = Some (pre, (g1, dot, g2), rest)"
    and "\<not> valid_date \<lparr>year = infer_year now (py_int g2), month = py_int g2, day = py_int g1\<rparr>"
  shows "resolve_target_date (str_lower q) now = Inr None
       \<and> smart_filter now (Some q) time_min time_max = Inr (time_min, time_max, Some q)
       \<and> smart_get_meetings db now uid (Some q) time_min time_max
           = Inr (get_meetings db uid time_min time_max (Some q))"
proof -
  from assms(1,2) have rel: "relative_day (str_lower q) now = Inr None"
    by (simp add: relative_day_None)
  have nm: "named_month_day (str_lower q) now None = Inr None"
    using assms(3) by (simp add: named_month_day_def)
  have num: "numeric_day_month (str_lower q) now None = Inr None"
    using assms(4,5) by (simp add: numeric_day_month_def datetime_def Let_def)
  have 1: "resolve_target_date (str_lower q) now = Inr None"
    by (simp add: resolve_unfold rel nm num)
  then have 2: "smart_filter now (Some q) time_min time_max = Inr (time_min, time_max, Some q)"
    by (simp add: smart_filter_def and_then_def)
  then have "smart_get_meetings db now uid (Some q) time_min time_max
           = Inr (get_meetings db uid time_min time_max (Some q))"
    by (simp add: smart_get_meetings_def and_then_def)
  with 1 2 show ?thesis by blast
qed

theorem invalid_numeric_date_is_no_date_witness:
  "resolve_target_date (str_lower [51, 49, 46, 48, 52]) \<lparr>year = 2025, month = 6, day = 10\<rparr> = Inr None
   \<and> smart_filter \<lparr>year = 2025, month = 6, day = 10\<rparr> (Some [51, 49, 46, 48, 52]) (Some [49]) None
       = Inr (Some [49], None, Some [51, 49, 46, 48, 52])
   \<and> smart_get_meetings [] \<lparr>year = 2025, month = 6, day = 10\<rparr> 7 (Some [51, 49, 46, 48, 52]) (Some [49]) None
       = Inr (get_meetings [] 7 (Some [49]) None (Some [51, 49, 46, 48, 52]))"
  using invalid_numeric_date_is_no_date
    [of "[51, 49, 46, 48, 52]" "[]" "[51, 49]" "[46]" "[48, 52]" "[]"
        "\<lparr>year = 2025, month = 6, day = 10\<rparr>" "Some [49]" None "[]" 7]
  by (simp add: lower_eval matcher_eval py_int_def digit_val_low infer_year_def
      valid_date_def days_in_month_def)

text \<open>
  Claim C6 as the specification words it, for every phrase containing such a numeric
  phrase, fails where an earlier rule takes the phrase: "31.04 zavtra" resolves to the
  next day and replaces the caller's bound, and "31.04 31 fevralya" raises ValueError
  on the named-month path.
\<close>

theorem invalid_numeric_date_counterexample:
  "re_search numeric_re (str_lower [51, 49, 46, 48, 52, 32, 1079, 1072, 1074, 1090, 1088, 1072])
     = Some ([], ([51, 49], [46], [48, 52]), [32, 1079, 1072, 1074, 1090, 1088, 1072])
   \<and> \<not> valid_date \<lparr>year = 2026, month = 4, day = 31\<rparr>
   \<and> smart_filter \<lparr>year = 2025, month = 6, day = 10\<rparr> (Some [51, 49, 46, 48, 52, 32, 1079, 1072, 1074, 1090, 1088, 1072]) (Some [49]) None
     = Inr (Some [50, 48, 50, 53, 45, 48, 54, 45, 49, 49, 84, 48, 48, 58, 48, 48, 58, 48, 48],
            Some [50, 48, 50, 53, 45, 48, 54, 45, 49, 50, 84, 48, 48, 58, 48, 48, 58, 48, 48],
            Some kw_zavtra)
   \<and> re_search numeric_re (str_lower [51, 49, 46, 48, 52, 32, 51, 49, 32, 1092, 1077, 1074, 1088, 1072, 1083, 1103])
     = Some ([], ([51, 49], [46], [48, 52]), [32, 51, 49, 32, 1092, 1077, 1074, 1088, 1072, 1083, 1103])
   \<and> smart_get_meetings [] \<lparr>year = 2025, month = 6, day = 10\<rparr> 7 (Some [51, 49, 46, 48, 52, 32, 51, 49, 32, 1092, 1077, 1074, 1088, 1072, 1083, 1103]) (Some [49]) None
     = Inl ValueError"
  by (simp add: lower_eval smart_get_meetings_def smart_filter_def date_eval valid_date_def
      py_int_def digit_val_low map_of_RU_MONTHS_fevralya datetime_def infer_year_def)

section \<open>The filter handed to the store\<close>

text \<open>
  Claim C7: when a date is resolved from a query text, the bounds handed to the store
  are the midnight of that date and the midnight of the next day, whatever bounds the
  caller supplied, and the substring filter is the residual text; the filter is never
  the caller's original query text.
\<close>

theorem resolved_date_overrides_bounds:
  assumes "resolve_target_date (str_lower q) now = Inr (Some t)"
  shows "smart_filter now (Some q) time_min time_max =
           and_then (next_day t) (\<lambda>t'.
             Inr (Some (strftime_midnight t), Some (strftime_midnight t'),
                  residual_query (str_lower q)))
         \<and> smart_filter now (Some q) time_min time_max \<noteq> Inr (a, b, Some q)"
proof -
  from assms have ne: "q \<noteq> []" by (auto simp: resolve_empty str_lower_def)
  have 1: "smart_filter now (Some q) time_min time_max =
           and_then (next_day t) (\<lambda>t'.
             Inr (Some (strftime_midnight t), Some (strftime_midnight t'),
                  residual_query (str_lower q)))"
    using ne assms by (simp add: smart_filter_def and_then_def)
  have "residual_query (str_lower q) \<noteq> Some q"
    by (rule residual_not_original [OF target_has_match [OF assms]])
  with 1 have 2: "smart_filter now (Some q) time_min time_max \<noteq> Inr (a, b, Some q)"
    by (auto simp: and_then_def split: sum.splits)
  from 1 2 show ?thesis by blast
qed

theorem resolved_date_overrides_bounds_witness:
  "resolve_target_date (str_lower [1056, 1077, 1075, 1080, 1085, 1072, 32, 1079, 1072, 1074, 1090, 1088, 1072])
       \<lparr>year = 2025, month = 6, day = 10\<rparr> = Inr (Some \<lparr>year = 2025, month = 6, day = 11\<rparr>)
   \<and> smart_filter \<lparr>year = 2025, month = 6, day = 10\<rparr>
        (Some [1056, 1077, 1075, 1080, 1085, 1072, 32, 1079, 1072, 1074, 1090, 1088, 1072])
        (Some [49]) (Some [50])
       = Inr (Some [50, 48, 50, 53, 45, 48, 54, 45, 49, 49, 84, 48, 48, 58, 48, 48, 58, 48, 48],
              Some [50, 48, 50, 53, 45, 48, 54, 45, 49, 50, 84, 48, 48, 58, 48, 48, 58, 48, 48],
              Some [1088, 1077, 1075, 1080, 1085, 1072])"
  using resolved_date_overrides_bounds
    [of "[1056, 1077, 1075, 1080, 1085, 1072, 32, 1079, 1072, 1074, 1090, 1088, 1072]"
        "\<lparr>year = 2025, month = 6, day = 10\<rparr>" "\<lparr>year = 2025, month = 6, day = 11\<rparr>"
        "Some [49]" "Some [50]" None None]
  by (simp add: lower_eval resolve_unfold relative_day_def and_then_def
      next_day_def days_in_month_def strftime_midnight_def dec2_def dec4_def
      residual_query_def re_sub1_def strip_def matcher_eval)

section \<open>The removed substring\<close>

lemma lit_iff: "(m, r) \<in> set (lit w s) \<longleftrightarrow> m = w \<and> s = w @ r"
  by (auto simp: lit_def prefix_def)

lemma alts_iff: "(m, r) \<in> set (alts ws s) \<longleftrightarrow> m \<in> set ws \<and> s = m @ r"
  by (auto simp: alts_def lit_iff)

lemma digits12_iff:
  "(m, r) \<in> set (digits12 s) \<longleftrightarrow> s = m @ r \<and> m \<noteq> [] \<and> length m \<le> 2 \<and> list_all is_digit m"
proof
  assume "(m, r) \<in> set (digits12 s)"
  then show "s = m @ r \<and> m \<noteq> [] \<and> length m \<le> 2 \<and> list_all is_digit m"
    using digits12_sound by blast
next
  assume h: "s = m @ r \<and> m \<noteq> [] \<and> length m \<le> 2 \<and> list_all is_digit m"
  then consider a where "m = [a]" | a b where "m = [a, b]"
    by (cases m; cases "tl m") auto
  then show "(m, r) \<in> set (digits12 s)"
  proof cases
    case 1
    with h show ?thesis by (cases r) (auto simp: digits12_def digit1_def)
  next
    case 2
    with h show ?thesis by (auto simp: digits12_def digit1_def)
  qed
qed

lemma spaces0_empty: "([], s) \<in> set (spaces0 s)"
  by (cases s) auto

lemma spaces0_iff: "(m, r) \<in> set (spaces0 s) \<longleftrightarrow> s = m @ r \<and> list_all is_space m"
proof
  assume "(m, r) \<in> set (spaces0 s)"
  then show "s = m @ r \<and> list_all is_space m" using spaces0_sound by blast
next
  assume "s = m @ r \<and> list_all is_space m"
  then show "(m, r) \<in> set (spaces0 s)"
  proof (induction m arbitrary: s)
    case Nil
    then show ?case by (simp add: spaces0_empty)
  next
    case (Cons c m)
    then have "(m, r) \<in> set (spaces0 (m @ r))" by simp
    with Cons.prems show ?case by force
  qed
qed

lemma named_month_re_iff:
  "((a, b, c), r) \<in> set (named_month_re s) \<longleftrightarrow>
     s = a @ b @ c @ r \<and> a \<noteq> [] \<and> length a \<le> 2 \<and> list_all is_digit a \<and> list_all is_space b
       \<and> c \<in> set month_genitives"
  by (auto simp: named_month_re_def seq3_iff digits12_iff spaces0_iff alts_iff)

lemma numeric_re_iff:
  "((a, b, c), r) \<in> set (numeric_re s) \<longleftrightarrow>
     s = a @ b @ c @ r \<and> a \<noteq> [] \<and> length a \<le> 2 \<and> list_all is_digit a \<and> b = [46]
       \<and> c \<noteq> [] \<and> length c \<le> 2 \<and> list_all is_digit c"
  by (auto simp: numeric_re_def seq3_iff digits12_iff lit_iff)

lemma date_re_local:
  assumes "(m, r) \<in> set (date_re s)"
  shows "(m, r') \<in> set (date_re (m @ r'))"
proof -
  from assms consider
      (kw) "(m, r) \<in> set (alts [kw_zavtra, kw_segodnya, kw_poslezavtra] s)"
    | (named) x where "x \<in> set (named_month_re s)" "whole3 x = (m, r)"
    | (numeric) x where "x \<in> set (numeric_re s)" "whole3 x = (m, r)"
    by (auto simp: date_re_def)
  then show ?thesis
  proof cases
    case kw
    then have "(m, r') \<in> set (alts [kw_zavtra, kw_segodnya, kw_poslezavtra] (m @ r'))"
      by (simp add: alts_iff)
    then show ?thesis by (simp add: date_re_def)
  next
    case named
    obtain a b c r0 where x0: "x = ((a, b, c), r0)" by (cases x) auto
    with named(2) have x: "x = ((a, b, c), r)" and m: "m = a @ b @ c"
      by (auto simp: whole3_def)
    with named(1) have "((a, b, c), r') \<in> set (named_month_re (m @ r'))"
      by (simp add: named_month_re_iff)
    then have "whole3 ((a, b, c), r') \<in> whole3 ` set (named_month_re (m @ r'))" by (rule imageI)
    with m show ?thesis by (simp add: date_re_def whole3_def)
  next
    case numeric
    obtain a b c r0 where x0: "x = ((a, b, c), r0)" by (cases x) auto
    with numeric(2) have x: "x = ((a, b, c), r)" and m: "m = a @ b @ c"
      by (auto simp: whole3_def)
    with numeric(1) have "((a, b, c), r') \<in> set (numeric_re (m @ r'))"
      by (simp add: numeric_re_iff)
    then have "whole3 ((a, b, c), r') \<in> whole3 ` set (numeric_re (m @ r'))" by (rule imageI)
    with m show ?thesis by (simp add: date_re_def whole3_def)
  qed
qed

lemma removed_match:
  assumes "resolve_target_date lq now = Inr (Some t)"
  shows "\<exists>pre m post ms. re_search date_re lq = Some (pre, m, post) \<and> lq = pre @ m @ post \<and> m \<noteq> []
           \<and> date_re (m @ post) = (m, post) # ms
           \<and> (\<forall>j < length pre. date_re (drop j lq) = [])
           \<and> residual_query lq = (if strip (pre @ post) = [] then None else Some (strip (pre @ post)))"
proof -
  from target_has_match [OF assms] obtain pre m post where
    f: "re_search date_re lq = Some (pre, m, post)" by auto
  from re_search_Some [OF f] obtain u ms where u: "lq = pre @ u" "date_re u = (m, post) # ms"
    and e: "\<forall>j < length pre. date_re (drop j lq) = []" by blast
  from u(2) have "(m, post) \<in> set (date_re u)" by simp
  then have um: "u = m @ post" "m \<noteq> []" using date_re_sound by blast+
  have "residual_query lq = (if strip (pre @ post) = [] then None else Some (strip (pre @ post)))"
    by (simp add: residual_query_def re_sub1_def f)
  with f u um e show ?thesis by auto
qed

lemma smart_filter_resolved:
  assumes "resolve_target_date (str_lower q) now = Inr (Some t)"
  shows "smart_filter now (Some q) time_min time_max =
           and_then (next_day t) (\<lambda>t'.
             Inr (Some (strftime_midnight t), Some (strftime_midnight t'),
                  residual_query (str_lower q)))"
proof -
  from assms have "q \<noteq> []" by (auto simp: resolve_empty str_lower_def)
  with assms show ?thesis by (simp add: smart_filter_def and_then_def)
qed

lemma re_search_at:
  "(\<forall>j < length pre. p (drop j (pre @ t)) = []) \<Longrightarrow> p t = (m, r) # ms \<Longrightarrow>
     re_search p (pre @ t) = Some (pre, m, r)"
proof (induction pre)
  case Nil
  then show ?case by (cases t) (simp_all add: re_search.simps)
next
  case (Cons c pre)
  from Cons.prems(1) have 0: "p (c # pre @ t) = []" by force
  have "\<forall>j < length pre. p (drop j (pre @ t)) = []"
  proof (intro allI impI)
    fix j assume "j < length pre"
    with Cons.prems(1) have "p (drop (Suc j) ((c # pre) @ t)) = []" by force
    then show "p (drop j (pre @ t)) = []" by simp
  qed
  from Cons.IH [OF this Cons.prems(2)] 0 show ?case by (simp add: re_search.simps)
qed

lemma remove_first_at:
  "m \<noteq> [] \<Longrightarrow> (\<forall>j < length pre. \<not> prefix m (drop j (pre @ m @ post))) \<Longrightarrow>
     remove_first m (pre @ m @ post) = pre @ post"
proof (induction pre)
  case Nil
  then obtain a m' where "m = a # m'" by (cases m) auto
  then show ?case by simp
next
  case (Cons c pre)
  from Cons.prems(2) have 0: "\<not> prefix m (c # pre @ m @ post)" by force
  have "\<forall>j < length pre. \<not> prefix m (drop j (pre @ m @ post))"
  proof (intro allI impI)
    fix j assume "j < length pre"
    with Cons.prems(2) have "\<not> prefix m (drop (Suc j) ((c # pre) @ m @ post))" by force
    then show "\<not> prefix m (drop j (pre @ m @ post))" by simp
  qed
  from Cons.IH [OF Cons.prems(1) this] 0 show ?case by simp
qed

lemma no_keyword_at_digit:
  assumes "is_digit c"
  shows "alts [kw_zavtra, kw_segodnya, kw_poslezavtra] (c # cs) = []"
proof -
  have "\<not> is_digit 1079" "\<not> is_digit 1089" "\<not> is_digit 1087" by (simp_all add: is_digit_low)
  with assms have "c \<noteq> 1079" "c \<noteq> 1089" "c \<noteq> 1087" by auto
  then show ?thesis by (simp add: alts_def lit_def)
qed

lemma date_phrase_is_match:
  assumes dp: "date_phrase lq = Some (pre', w, post')"
    and before: "\<forall>j < length pre'. date_re (drop j lq) = []"
  shows "re_search date_re lq = Some (pre', w, post')"
proof -
  have "\<exists>t ms. lq = pre' @ t \<and> date_re t = (w, post') # ms"
  proof (cases "str_in kw_zavtra lq")
    case True
    with dp have "re_search (lit kw_zavtra) lq = Some (pre', w, post')" by (simp add: date_phrase_def)
    from re_search_Some [OF this] obtain t ms where t: "lq = pre' @ t" "lit kw_zavtra t = (w, post') # ms"
      by blast
    from t(2) have "(w, post') \<in> set (lit kw_zavtra t)" by simp
    then have "w = kw_zavtra" "t = kw_zavtra @ post'" by (auto simp: lit_iff)
    then have "date_re t = (w, post') # tl (date_re t)" by (simp add: date_re_def alts_def lit_def)
    with t(1) show ?thesis by blast
  next
    case False
    note nz = this
    show ?thesis
    proof (cases "str_in kw_segodnya lq")
      case True
      with dp nz have "re_search (lit kw_segodnya) lq = Some (pre', w, post')"
        by (simp add: date_phrase_def)
      from re_search_Some [OF this] obtain t ms where t: "lq = pre' @ t"
        "lit kw_segodnya t = (w, post') # ms" by blast
      from t(2) have "(w, post') \<in> set (lit kw_segodnya t)" by simp
      then have "w = kw_segodnya" "t = kw_segodnya @ post'" by (auto simp: lit_iff)
      then have "date_re t = (w, post') # tl (date_re t)" by (simp add: date_re_def alts_def lit_def)
      with t(1) show ?thesis by blast
    next
      case False
      note ns = this
      show ?thesis
      proof (cases "re_search named_month_re lq")
        case (Some x)
        obtain p0 g1 ws g2 r0 where x: "x = (p0, (g1, ws, g2), r0)" by (cases x) auto
        with dp nz ns Some have eq: "p0 = pre'" "w = g1 @ ws @ g2" "r0 = post'"
          by (auto simp: date_phrase_def)
        from re_search_Some [OF Some [unfolded x]] obtain t ms where
          t: "lq = p0 @ t" "named_month_re t = ((g1, ws, g2), r0) # ms" by blast
        from t(2) have "((g1, ws, g2), r0) \<in> set (named_month_re t)" by simp
        then have "t = g1 @ ws @ g2 @ r0" "g1 \<noteq> []" "list_all is_digit g1"
          using named_month_re_sound by blast+
        then obtain c cs where "t = c # cs" "is_digit c" by (cases g1) auto
        then have "alts [kw_zavtra, kw_segodnya, kw_poslezavtra] t = []"
          by (simp add: no_keyword_at_digit)
        with t(2) have "date_re t = (g1 @ ws @ g2, r0) # (map whole3 ms @ map whole3 (numeric_re t))"
          by (simp add: date_re_def whole3_def)
        with t(1) eq show ?thesis by blast
      next
        case None
        show ?thesis
        proof (cases "re_search numeric_re lq")
          case nn: None
          with dp nz ns None show ?thesis by (simp add: date_phrase_def)
        next
          case (Some x)
          obtain p0 g1 dot g2 r0 where x: "x = (p0, (g1, dot, g2), r0)" by (cases x) auto
          with dp nz ns None Some have eq: "p0 = pre'" "w = g1 @ dot @ g2" "r0 = post'"
            by (auto simp: date_phrase_def)
          from re_search_Some [OF Some [unfolded x]] obtain t ms where
            t: "lq = p0 @ t" "numeric_re t = ((g1, dot, g2), r0) # ms" by blast
          from t(2) have "((g1, dot, g2), r0) \<in> set (numeric_re t)" by simp
          then have "t = g1 @ dot @ g2 @ r0" "g1 \<noteq> []" "list_all is_digit g1"
            using numeric_re_sound by blast+
          then obtain c cs where "t = c # cs" "is_digit c" by (cases g1) auto
          then have a: "alts [kw_zavtra, kw_segodnya, kw_poslezavtra] t = []"
            by (simp add: no_keyword_at_digit)
          from re_search_None [OF None, of "length p0"] have n: "named_month_re t = []"
            unfolding t(1) by simp
          from a n t(2) have "date_re t = (g1 @ dot @ g2, r0) # map whole3 ms"
            by (simp add: date_re_def whole3_def)
          with t(1) eq show ?thesis by blast
        qed
      qed
    qed
  qed
  then obtain t ms where t: "lq = pre' @ t" "date_re t = (w, post') # ms" by blast
  from before t(1) have "\<forall>j < length pre'. date_re (drop j (pre' @ t)) = []" by simp
  from re_search_at [OF this t(2)] t(1) show ?thesis by simp
qed

lemma date_phrase_exists:
  assumes "resolve_target_date lq now = Inr (Some t)"
  shows "date_phrase lq \<noteq> None"
proof (cases "str_in kw_zavtra lq")
  case True
  then obtain pre post where "lq = pre @ kw_zavtra @ post" by (auto simp: str_in_iff)
  moreover have "lit kw_zavtra (kw_zavtra @ post) \<noteq> []" by (simp add: lit_def)
  ultimately have "re_search (lit kw_zavtra) lq \<noteq> None"
    using re_search_found [of "lit kw_zavtra" "kw_zavtra @ post" pre] by simp
  with True show ?thesis by (simp add: date_phrase_def)
next
  case False
  note nz = this
  show ?thesis
  proof (cases "str_in kw_segodnya lq")
    case True
    then obtain pre post where "lq = pre @ kw_segodnya @ post" by (auto simp: str_in_iff)
    moreover have "lit kw_segodnya (kw_segodnya @ post) \<noteq> []" by (simp add: lit_def)
    ultimately have "re_search (lit kw_segodnya) lq \<noteq> None"
      using re_search_found [of "lit kw_segodnya" "kw_segodnya @ post" pre] by simp
    with nz True show ?thesis by (simp add: date_phrase_def)
  next
    case False
    with nz have rel: "relative_day lq now = Inr None" by (simp add: relative_day_None)
    show ?thesis
    proof (cases "re_search named_month_re lq")
      case (Some x)
      with nz False show ?thesis by (auto simp: date_phrase_def split: prod.splits)
    next
      case None
      then have "named_month_day lq now None = Inr None" by (simp add: named_month_day_def)
      with assms rel have "numeric_day_month lq now None = Inr (Some t)" by (simp add: resolve_unfold)
      then have "re_search numeric_re lq \<noteq> None"
        by (auto simp: numeric_day_month_def split: option.splits)
      with nz False None show ?thesis by (auto simp: date_phrase_def split: prod.splits)
    qed
  qed
qed

text \<open>
  Claim C8, as the code has it: when a date is resolved, the residual text is the
  lower-cased input with one substring \<open>m\<close> taken out where it first occurs, once only,
  and the surrounding whitespace stripped; an empty remainder is reported as \<open>None\<close>,
  never as the empty string. The substring is the leftmost match of the combined date
  pattern. It is the phrase that gave the date whenever no date-like text starts before
  that phrase.
\<close>

theorem residual_is_text_without_first_match:
  assumes "resolve_target_date (str_lower q) now = Inr (Some t)"
    and "smart_filter now (Some q) time_min time_max = Inr (tmin, tmax, residual)"
  shows "\<exists>pre m post. str_lower q = pre @ m @ post \<and> m \<noteq> []
           \<and> re_search date_re (str_lower q) = Some (pre, m, post)
           \<and> (\<forall>j < length pre. \<not> prefix m (drop j (str_lower q)))
           \<and> residual = (if strip (pre @ post) = [] then None else Some (strip (pre @ post)))
           \<and> residual \<noteq> Some []
           \<and> residual = spec_residual m (str_lower q)
           \<and> date_phrase (str_lower q) \<noteq> None
           \<and> (\<forall>pre' w post'. date_phrase (str_lower q) = Some (pre', w, post')
                  \<and> (\<forall>j < length pre'. date_re (drop j (str_lower q)) = [])
                \<longrightarrow> pre' = pre \<and> w = m \<and> post' = post)"
proof -
  from removed_match [OF assms(1)] obtain pre m post ms where
    f: "re_search date_re (str_lower q) = Some (pre, m, post)"
    and s: "str_lower q = pre @ m @ post" "m \<noteq> []"
    and hd: "date_re (m @ post) = (m, post) # ms"
    and e: "\<forall>j < length pre. date_re (drop j (str_lower q)) = []"
    and r: "residual_query (str_lower q) = (if strip (pre @ post) = [] then None else Some (strip (pre @ post)))"
    by blast
  from assms(2) have res: "residual = residual_query (str_lower q)"
    by (auto simp: smart_filter_resolved [OF assms(1)] and_then_def split: sum.splits)
  have first: "\<forall>j < length pre. \<not> prefix m (drop j (str_lower q))"
  proof (intro allI impI notI)
    fix j assume j: "j < length pre" and "prefix m (drop j (str_lower q))"
    then obtain r' where d: "drop j (str_lower q) = m @ r'" by (auto simp: prefix_def)
    from hd have "(m, post) \<in> set (date_re (m @ post))" by simp
    then have "(m, r') \<in> set (date_re (m @ r'))" by (rule date_re_local)
    with d e j show False by auto
  qed
  from first s have "remove_first m (str_lower q) = pre @ post"
    using remove_first_at [of m pre post] by simp
  with r res have spec: "residual = spec_residual m (str_lower q)"
    by (simp add: spec_residual_def)
  have dp: "\<forall>pre' w post'. date_phrase (str_lower q) = Some (pre', w, post')
                  \<and> (\<forall>j < length pre'. date_re (drop j (str_lower q)) = [])
                \<longrightarrow> pre' = pre \<and> w = m \<and> post' = post"
  proof (intro allI impI)
    fix pre' w post'
    assume "date_phrase (str_lower q) = Some (pre', w, post')
              \<and> (\<forall>j < length pre'. date_re (drop j (str_lower q)) = [])"
    then have "re_search date_re (str_lower q) = Some (pre', w, post')"
      using date_phrase_is_match by blast
    with f show "pre' = pre \<and> w = m \<and> post' = post" by simp
  qed
  have shape: "residual = (if strip (pre @ post) = [] then None else Some (strip (pre @ post)))"
    using r res by simp
  then have ne: "residual \<noteq> Some []" by (simp split: if_splits)
  note ex = date_phrase_exists [OF assms(1)]
  have "str_lower q = pre @ m @ post \<and> m \<noteq> []
           \<and> re_search date_re (str_lower q) = Some (pre, m, post)
           \<and> (\<forall>j < length pre. \<not> prefix m (drop j (str_lower q)))
           \<and> residual = (if strip (pre @ post) = [] then None else Some (strip (pre @ post)))
           \<and> residual \<noteq> Some []
           \<and> residual = spec_residual m (str_lower q)
           \<and> date_phrase (str_lower q) \<noteq> None
           \<and> (\<forall>pre' w post'. date_phrase (str_lower q) = Some (pre', w, post')
                  \<and> (\<forall>j < length pre'. date_re (drop j (str_lower q)) = [])
                \<longrightarrow> pre' = pre \<and> w = m \<and> post' = post)"
    by (intro conjI) (rule s(1) s(2) f first shape ne spec ex dp)+
  then show ?thesis by (intro exI)
qed

theorem residual_is_text_without_first_match_witness:
  "str_lower [1042, 1089, 1090, 1088, 1077, 1095, 1072, 32, 56, 32, 1053, 1086, 1103, 1073, 1088, 1103, 32, 1080, 32, 56, 32, 1085, 1086, 1103, 1073, 1088, 1103]
     = [1074, 1089, 1090, 1088, 1077, 1095, 1072, 32, 56, 32, 1085, 1086, 1103, 1073, 1088, 1103, 32, 1080, 32, 56, 32, 1085, 1086, 1103, 1073, 1088, 1103]
   \<and> resolve_target_date [1074, 1089, 1090, 1088, 1077, 1095, 1072, 32, 56, 32, 1085, 1086, 1103, 1073, 1088, 1103, 32, 1080, 32, 56, 32, 1085, 1086, 1103, 1073, 1088, 1103]
       \<lparr>year = 2025, month = 6, day = 10\<rparr> = Inr (Some \<lparr>year = 2025, month = 11, day = 8\<rparr>)
   \<and> smart_filter \<lparr>year = 2025, month = 6, day = 10\<rparr>
        (Some [1042, 1089, 1090, 1088, 1077, 1095, 1072, 32, 56, 32, 1053, 1086, 1103, 1073, 1088, 1103, 32, 1080, 32, 56, 32, 1085, 1086, 1103, 1073, 1088, 1103])
        None None
       = Inr (Some [50, 48, 50, 53, 45, 49, 49, 45, 48, 56, 84, 48, 48, 58, 48, 48, 58, 48, 48],
              Some [50, 48, 50, 53, 45, 49, 49, 45, 48, 57, 84, 48, 48, 58, 48, 48, 58, 48, 48],
              Some [1074, 1089, 1090, 1088, 1077, 1095, 1072, 32, 32, 1080, 32, 56, 32, 1085, 1086, 1103, 1073, 1088, 1103])"
proof -
  have l: "str_lower [1042, 1089, 1090, 1088, 1077, 1095, 1072, 32, 56, 32, 1053, 1086, 1103, 1073, 1088, 1103, 32, 1080, 32, 56, 32, 1085, 1086, 1103, 1073, 1088, 1103]
     = [1074, 1089, 1090, 1088, 1077, 1095, 1072, 32, 56, 32, 1085, 1086, 1103, 1073, 1088, 1103, 32, 1080, 32, 56, 32, 1085, 1086, 1103, 1073, 1088, 1103]"
    by (simp add: lower_eval)
  have t: "resolve_target_date [1074, 1089, 1090, 1088, 1077, 1095, 1072, 32, 56, 32, 1085, 1086, 1103, 1073, 1088, 1103, 32, 1080, 32, 56, 32, 1085, 1086, 1103, 1073, 1088, 1103]
       \<lparr>year = 2025, month = 6, day = 10\<rparr> = Inr (Some \<lparr>year = 2025, month = 11, day = 8\<rparr>)"
    by (simp add: date_eval py_int_def digit_val_low infer_year_def datetime_def valid_date_def
        RU_MONTHS_def month_forms_def upt_rec)
  have r: "residual_query [1074, 1089, 1090, 1088, 1077, 1095, 1072, 32, 56, 32, 1085, 1086, 1103, 1073, 1088, 1103, 32, 1080, 32, 56, 32, 1085, 1086, 1103, 1073, 1088, 1103]
     = Some [1074, 1089, 1090, 1088, 1077, 1095, 1072, 32, 32, 1080, 32, 56, 32, 1085, 1086, 1103, 1073, 1088, 1103]"
    by (simp add: date_eval)
  have f: "smart_filter \<lparr>year = 2025, month = 6, day = 10\<rparr>
        (Some [1042, 1089, 1090, 1088, 1077, 1095, 1072, 32, 56, 32, 1053, 1086, 1103, 1073, 1088, 1103, 32, 1080, 32, 56, 32, 1085, 1086, 1103, 1073, 1088, 1103])
        None None
       = Inr (Some [50, 48, 50, 53, 45, 49, 49, 45, 48, 56, 84, 48, 48, 58, 48, 48, 58, 48, 48],
              Some [50, 48, 50, 53, 45, 49, 49, 45, 48, 57, 84, 48, 48, 58, 48, 48, 58, 48, 48],
              Some [1074, 1089, 1090, 1088, 1077, 1095, 1072, 32, 32, 1080, 32, 56, 32, 1085, 1086, 1103, 1073, 1088, 1103])"
    by (simp add: smart_filter_def l t r and_then_def next_day_def days_in_month_def
        strftime_midnight_def dec2_def dec4_def)
  from residual_is_text_without_first_match [OF t [folded l] f] l t f show ?thesis by simp
qed

text \<open>
  Claim C8 as the specification words it fails on "15.07 segodnya": the date is today's,
  given by "segodnya", and the text taken out is "15.07", so the residual text is
  "segodnya" where the specification describes "15.07".
\<close>

theorem residual_keeps_date_phrase_counterexample:
  "date_phrase (str_lower [49, 53, 46, 48, 55, 32, 1089, 1077, 1075, 1086, 1076, 1085, 1103])
     = Some ([49, 53, 46, 48, 55, 32], kw_segodnya, [])
   \<and> smart_filter \<lparr>year = 2025, month = 6, day = 10\<rparr> (Some [49, 53, 46, 48, 55, 32, 1089, 1077, 1075, 1086, 1076, 1085, 1103]) None None
     = Inr (Some [50, 48, 50, 53, 45, 48, 54, 45, 49, 48, 84, 48, 48, 58, 48, 48, 58, 48, 48],
            Some [50, 48, 50, 53, 45, 48, 54, 45, 49, 49, 84, 48, 48, 58, 48, 48, 58, 48, 48],
            Some kw_segodnya)
   \<and> spec_residual kw_segodnya (str_lower [49, 53, 46, 48, 55, 32, 1089, 1077, 1075, 1086, 1076, 1085, 1103]) = Some [49, 53, 46, 48, 55]"
  by (simp add: lower_eval date_phrase_def smart_filter_def date_eval spec_residual_def)

text \<open>
  Claim C2, as the code has it. One date is extracted, by precedence: the relative-day
  keywords, then the named month, then the numeric form. The substring taken out of the
  text is chosen otherwise: it is the leftmost match of the combined pattern, so no
  date-like text starts before it, whichever kind of phrase gave the date.
\<close>

theorem one_date_by_precedence_removal_by_position:
  assumes "resolve_target_date lq now = Inr (Some t)"
  shows "(if str_in kw_zavtra lq \<or> str_in kw_segodnya lq then relative_day lq now = Inr (Some t)
          else if re_search named_month_re lq \<noteq> None then named_month_day lq now None = Inr (Some t)
          else numeric_day_month lq now None = Inr (Some t))
       \<and> (\<exists>pre m post ms. re_search date_re lq = Some (pre, m, post) \<and> lq = pre @ m @ post \<and> m \<noteq> []
           \<and> date_re (m @ post) = (m, post) # ms
           \<and> (\<forall>j < length pre. date_re (drop j lq) = [])
           \<and> residual_query lq = (if strip (pre @ post) = [] then None else Some (strip (pre @ post))))"
proof -
  have 1: "(if str_in kw_zavtra lq \<or> str_in kw_segodnya lq then relative_day lq now = Inr (Some t)
          else if re_search named_month_re lq \<noteq> None then named_month_day lq now None = Inr (Some t)
          else numeric_day_month lq now None = Inr (Some t))"
  proof (cases "str_in kw_zavtra lq \<or> str_in kw_segodnya lq")
    case True
    then have "relative_day lq now \<noteq> Inr None" by (simp add: relative_day_None)
    with assms True show ?thesis
      by (auto simp: resolve_unfold split: sum.splits option.splits)
  next
    case False
    then have rel: "relative_day lq now = Inr None" by (simp add: relative_day_None)
    show ?thesis
    proof (cases "re_search named_month_re lq")
      case None
      then have "named_month_day lq now None = Inr None" by (simp add: named_month_day_def)
      with assms rel None False show ?thesis by (simp add: resolve_unfold)
    next
      case (Some x)
      then have "named_month_day lq now None \<noteq> Inr None"
        by (auto simp: named_month_day_def Let_def and_then_def split: prod.splits sum.splits)
      with assms rel Some False show ?thesis
        by (auto simp: resolve_unfold split: sum.splits option.splits)
    qed
  qed
  from 1 removed_match [OF assms] show ?thesis by blast
qed

theorem one_date_by_precedence_removal_by_position_witness:
  "resolve_target_date [1079, 1072, 1074, 1090, 1088, 1072, 32, 56, 32, 1085, 1086, 1103, 1073, 1088, 1103]
       \<lparr>year = 2025, month = 6, day = 10\<rparr> = Inr (Some \<lparr>year = 2025, month = 6, day = 11\<rparr>)
   \<and> relative_day [1079, 1072, 1074, 1090, 1088, 1072, 32, 56, 32, 1085, 1086, 1103, 1073, 1088, 1103]
       \<lparr>year = 2025, month = 6, day = 10\<rparr> = Inr (Some \<lparr>year = 2025, month = 6, day = 11\<rparr>)
   \<and> re_search date_re [1079, 1072, 1074, 1090, 1088, 1072, 32, 56, 32, 1085, 1086, 1103, 1073, 1088, 1103]
       = Some ([], kw_zavtra, [32, 56, 32, 1085, 1086, 1103, 1073, 1088, 1103])
   \<and> residual_query [1079, 1072, 1074, 1090, 1088, 1072, 32, 56, 32, 1085, 1086, 1103, 1073, 1088, 1103]
       = Some [56, 32, 1085, 1086, 1103, 1073, 1088, 1103]"
  using one_date_by_precedence_removal_by_position
    [of "[1079, 1072, 1074, 1090, 1088, 1072, 32, 56, 32, 1085, 1086, 1103, 1073, 1088, 1103]"
        "\<lparr>year = 2025, month = 6, day = 10\<rparr>" "\<lparr>year = 2025, month = 6, day = 11\<rparr>"]
  by (simp add: resolve_unfold relative_day_def
      and_then_def next_day_def days_in_month_def
      residual_query_def re_sub1_def strip_def matcher_eval)

text \<open>
  Claim C2 as the specification words it fails on "8 noyabrya zavtra": the date comes
  from "zavtra", first by precedence, while the text taken out is "8 noyabrya", first
  by position, and "zavtra" stays behind as the substring filter.
\<close>

theorem removal_by_precedence_counterexample:
  "relative_day [56, 32, 1085, 1086, 1103, 1073, 1088, 1103, 32, 1079, 1072, 1074, 1090, 1088, 1072]
       \<lparr>year = 2025, month = 6, day = 10\<rparr> = Inr (Some \<lparr>year = 2025, month = 6, day = 11\<rparr>)
   \<and> resolve_target_date [56, 32, 1085, 1086, 1103, 1073, 1088, 1103, 32, 1079, 1072, 1074, 1090, 1088, 1072]
       \<lparr>year = 2025, month = 6, day = 10\<rparr> = Inr (Some \<lparr>year = 2025, month = 6, day = 11\<rparr>)
   \<and> re_search date_re [56, 32, 1085, 1086, 1103, 1073, 1088, 1103, 32, 1079, 1072, 1074, 1090, 1088, 1072]
       = Some ([], [56, 32, 1085, 1086, 1103, 1073, 1088, 1103], [32, 1079, 1072, 1074, 1090, 1088, 1072])
   \<and> smart_filter \<lparr>year = 2025, month = 6, day = 10\<rparr>
        (Some [56, 32, 1085, 1086, 1103, 1073, 1088, 1103, 32, 1079, 1072, 1074, 1090, 1088, 1072]) None None
       = Inr (Some [50, 48, 50, 53, 45, 48, 54, 45, 49, 49, 84, 48, 48, 58, 48, 48, 58, 48, 48],
              Some [50, 48, 50, 53, 45, 48, 54, 45, 49, 50, 84, 48, 48, 58, 48, 48, 58, 48, 48],
              Some kw_zavtra)"
  by (simp add: lower_eval resolve_unfold relative_day_def
      and_then_def next_day_def days_in_month_def strftime_midnight_def dec2_def dec4_def
      smart_filter_def residual_query_def re_sub1_def strip_def matcher_eval)

section \<open>The substring filter\<close>








section \<open>Candidates and the update actions\<close>

lemma get_meetings_sorted: "sorted (map (\<lambda>(s, st, d, loc). st) (get_meetings db uid a b c))"
proof -
  have "map (\<lambda>(s, st, d, loc). st) (get_meetings db uid a b c)
      = map start_time (sort_key start_time (filter (selected uid a b c) db))"
    by (simp add: get_meetings_def result_of_def comp_def)
  then show ?thesis by (simp add: sorted_sort_key)
qed

lemma get_meetings_rows:
  "x \<in> set (get_meetings db uid a b c) \<Longrightarrow> \<exists>r \<in> set db. x = result_of r \<and> user_id r = uid"
  by (auto simp: get_meetings_def selected_def)

lemma smart_get_meetings_Inr:
  "smart_get_meetings db now uid q a b = Inr ms \<Longrightarrow> \<exists>a' b' q'. ms = get_meetings db uid a' b' q'"
  by (auto simp: smart_get_meetings_def and_then_def split: sum.splits prod.splits)

lemma candidates_sorted:
  "smart_get_meetings db now uid q a b = Inr ms \<Longrightarrow> sorted (map (\<lambda>(s, st, d, loc). st) ms)"
  using get_meetings_sorted by (auto dest!: smart_get_meetings_Inr)

lemma candidates_rows:
  "smart_get_meetings db now uid q a b = Inr ms \<Longrightarrow> x \<in> set ms \<Longrightarrow>
     \<exists>r \<in> set db. x = result_of r \<and> user_id r = uid"
proof -
  assume "smart_get_meetings db now uid q a b = Inr ms" and x: "x \<in> set ms"
  then obtain a' b' q' where "ms = get_meetings db uid a' b' q'"
    using smart_get_meetings_Inr by blast
  with x show ?thesis using get_meetings_rows [of x db uid a' b' q'] by simp
qed

lemma update_summary_none:
  "smart_get_meetings db now uid (Some q) None None = Inr [] \<Longrightarrow>
     update_meeting_summary db now uid q n = Inr (db, False, None)"
  by (simp add: update_meeting_summary_def and_then_def)

lemma update_summary_one:
  "smart_get_meetings db now uid (Some q) None None = Inr [(s, st, d, loc)] \<Longrightarrow>
     update_meeting_summary db now uid q n = Inr (set_summary db uid s st n, True, None)"
  by (simp add: update_meeting_summary_def and_then_def)

lemma update_summary_many:
  "smart_get_meetings db now uid (Some q) None None = Inr ms \<Longrightarrow> 2 \<le> length ms \<Longrightarrow>
     update_meeting_summary db now uid q n = Inr (db, False, Some ms)"
  by (cases ms; cases "tl ms") (auto simp: update_meeting_summary_def and_then_def split: prod.splits)

lemma handle_summary_none:
  "q \<noteq> [] \<Longrightarrow> n \<noteq> [] \<Longrightarrow> smart_get_meetings db now uid (Some q) None None = Inr [] \<Longrightarrow>
     handle_update_summary isofmt db now uid (Some q) (Some n) = (db, NotFound)"
  by (simp add: handle_update_summary_def update_summary_none)

lemma handle_summary_one:
  "q \<noteq> [] \<Longrightarrow> n \<noteq> [] \<Longrightarrow> smart_get_meetings db now uid (Some q) None None = Inr [(s, st, d, loc)] \<Longrightarrow>
     handle_update_summary isofmt db now uid (Some q) (Some n) = (set_summary db uid s st n, SummaryUpdated)"
  by (simp add: handle_update_summary_def update_summary_one)

lemma handle_summary_many:
  "q \<noteq> [] \<Longrightarrow> n \<noteq> [] \<Longrightarrow> smart_get_meetings db now uid (Some q) None None = Inr ms \<Longrightarrow>
   2 \<le> length ms \<Longrightarrow>
     handle_update_summary isofmt db now uid (Some q) (Some n)
       = (db, if renders isofmt ms then Ambiguous ms else Apology)"
  by (simp add: handle_update_summary_def update_summary_many)

lemma handle_location_none:
  "q \<noteq> [] \<Longrightarrow> l \<noteq> [] \<Longrightarrow> smart_get_meetings db now uid (Some q) None None = Inr [] \<Longrightarrow>
     handle_update_location isofmt db now uid (Some q) (Some l) = (db, NotFound)"
  by (simp add: handle_update_location_def)

lemma handle_location_one:
  "q \<noteq> [] \<Longrightarrow> l \<noteq> [] \<Longrightarrow> smart_get_meetings db now uid (Some q) None None = Inr [(s, st, d, loc)] \<Longrightarrow>
     handle_update_location isofmt db now uid (Some q) (Some l)
       = (update_meeting_location db uid s st l, LocationUpdated)"
  by (simp add: handle_update_location_def)

lemma handle_location_many:
  "q \<noteq> [] \<Longrightarrow> l \<noteq> [] \<Longrightarrow> smart_get_meetings db now uid (Some q) None None = Inr ms \<Longrightarrow>
   2 \<le> length ms \<Longrightarrow>
     handle_update_location isofmt db now uid (Some q) (Some l)
       = (db, if renders isofmt ms then Ambiguous ms else Apology)"
  by (cases ms; cases "tl ms") (auto simp: handle_update_location_def split: prod.splits)

lemma unique_candidate_is_updated:
  assumes "smart_get_meetings db now uid (Some q) None None = Inr [(s, st, d, loc)]"
  shows "\<exists>i < length db. result_of (db ! i) = (s, st, d, loc) \<and> user_id (db ! i) = uid
           \<and> summary (set_summary db uid s st n ! i) = n
           \<and> location (update_meeting_location db uid s st l ! i) = Some l"
proof -
  from candidates_rows [OF assms, of "(s, st, d, loc)"] obtain r where
    r: "r \<in> set db" "(s, st, d, loc) = result_of r" "user_id r = uid" by auto
  then obtain i where i: "i < length db" "db ! i = r" by (auto simp: in_set_conv_nth)
  from r(2) have k: "summary r = s" "start_time r = st" by (auto simp: result_of_def)
  from i r k have "summary (set_summary db uid s st n ! i) = n"
    by (simp add: set_summary_def)
  moreover from i r k have "location (update_meeting_location db uid s st l ! i) = Some l"
    by (simp add: update_meeting_location_def)
  ultimately show ?thesis using i r by auto
qed

lemma other_rows_kept:
  "i < length db \<Longrightarrow> \<not> (user_id (db ! i) = uid \<and> summary (db ! i) = s \<and> start_time (db ! i) = st) \<Longrightarrow>
     set_summary db uid s st n ! i = db ! i \<and> update_meeting_location db uid s st l ! i = db ! i"
  by (auto simp: set_summary_def update_meeting_location_def)

lemmas store_eval = smart_get_meetings_def smart_filter_def lower_eval and_then_def
  get_meetings_def selected_def when_given_def query_matches_def like_contains_def ascii_fold_def
  result_of_def

lemmas iso_eval = iso_timestamp_def ascii_digits_def ascii_val_def valid_date_def days_in_month_def
  is_leap_def renders_def

lemma candidates_obed:
  "smart_get_meetings
      [\<lparr>user_id = 7, summary = [1086, 1073, 1077, 1076], start_time = [50, 48, 50, 53, 45, 48, 54, 45, 49, 49, 84, 49, 53, 58, 48, 48, 58, 48, 48], duration_minutes = 30, location = None\<rparr>,
       \<lparr>user_id = 7, summary = [1086, 1073, 1077, 1076], start_time = [50, 48, 50, 53, 45, 48, 54, 45, 49, 49, 84, 49, 48, 58, 48, 48, 58, 48, 48], duration_minutes = 30, location = Some [1059, 1092, 1072]\<rparr>]
      \<lparr>year = 2025, month = 6, day = 10\<rparr> 7 (Some [1086, 1073, 1077, 1076]) None None
     = Inr [([1086, 1073, 1077, 1076], [50, 48, 50, 53, 45, 48, 54, 45, 49, 49, 84, 49, 48, 58, 48, 48, 58, 48, 48], 30, Some [1059, 1092, 1072]),
            ([1086, 1073, 1077, 1076], [50, 48, 50, 53, 45, 48, 54, 45, 49, 49, 84, 49, 53, 58, 48, 48, 58, 48, 48], 30, None)]"
  by (simp add: store_eval date_eval)

lemma candidates_ufa:
  "smart_get_meetings
      [\<lparr>user_id = 7, summary = [1086, 1073, 1077, 1076], start_time = [50, 48, 50, 53, 45, 48, 54, 45, 49, 49, 84, 49, 53, 58, 48, 48, 58, 48, 48], duration_minutes = 30, location = None\<rparr>,
       \<lparr>user_id = 7, summary = [1086, 1073, 1077, 1076], start_time = [50, 48, 50, 53, 45, 48, 54, 45, 49, 49, 84, 49, 48, 58, 48, 48, 58, 48, 48], duration_minutes = 30, location = Some [1059, 1092, 1072]\<rparr>]
      \<lparr>year = 2025, month = 6, day = 10\<rparr> 7 (Some [1059, 1092, 1072]) None None
     = Inr [([1086, 1073, 1077, 1076], [50, 48, 50, 53, 45, 48, 54, 45, 49, 49, 84, 49, 48, 58, 48, 48, 58, 48, 48], 30, Some [1059, 1092, 1072])]"
  by (simp add: store_eval date_eval)


lemma candidates_unreadable:
  "smart_get_meetings
      [\<lparr>user_id = 7, summary = [1086, 1073, 1077, 1076], start_time = [50, 48, 50, 53, 45, 48, 54, 45, 49, 49, 84, 49, 53, 58, 48, 48, 58, 48, 48], duration_minutes = 30, location = None\<rparr>,
       \<lparr>user_id = 7, summary = [1086, 1073, 1077, 1076], start_time = [1079, 1072, 1074, 1090, 1088, 1072], duration_minutes = 30, location = None\<rparr>]
      \<lparr>year = 2025, month = 6, day = 10\<rparr> 7 (Some [1086, 1073, 1077, 1076]) None None
     = Inr [([1086, 1073, 1077, 1076], [50, 48, 50, 53, 45, 48, 54, 45, 49, 49, 84, 49, 53, 58, 48, 48, 58, 48, 48], 30, None),
            ([1086, 1073, 1077, 1076], [1079, 1072, 1074, 1090, 1088, 1072], 30, None)]"
  by (simp add: store_eval date_eval)

text \<open>
  Claim C3, as the code has it: let \<open>ms\<close> be the candidates the lookup returns for the
  query of an update action. With no candidate both actions answer \<open>NotFound\<close> and leave
  the store as it was. With exactly one, the update is issued with that candidate's
  title and start time, and the stored row it came from carries the new title (the new
  location) afterwards. With two or more the store is left as it was and
  \<open>update_meeting_summary\<close> returns the whole list, which is in ascending order of start
  time; the handler answers with that list when every start time in it is a readable
  timestamp, and with its apology otherwise.
\<close>

theorem candidate_resolution:
  assumes "q \<noteq> []" "n \<noteq> []" "l \<noteq> []"
    and "smart_get_meetings db now uid (Some q) None None = Inr ms"
  shows
    "(ms = [] \<longrightarrow>
        update_meeting_summary db now uid q n = Inr (db, False, None)
      \<and> handle_update_summary isofmt db now uid (Some q) (Some n) = (db, NotFound)
      \<and> handle_update_location isofmt db now uid (Some q) (Some l) = (db, NotFound))
   \<and> (\<forall>s st d loc. ms = [(s, st, d, loc)] \<longrightarrow>
        update_meeting_summary db now uid q n = Inr (set_summary db uid s st n, True, None)
      \<and> handle_update_summary isofmt db now uid (Some q) (Some n)
          = (set_summary db uid s st n, SummaryUpdated)
      \<and> handle_update_location isofmt db now uid (Some q) (Some l)
          = (update_meeting_location db uid s st l, LocationUpdated)
      \<and> (\<exists>i < length db. result_of (db ! i) = (s, st, d, loc) \<and> user_id (db ! i) = uid
            \<and> summary (set_summary db uid s st n ! i) = n
            \<and> location (update_meeting_location db uid s st l ! i) = Some l))
   \<and> (2 \<le> length ms \<longrightarrow>
        update_meeting_summary db now uid q n = Inr (db, False, Some ms)
      \<and> handle_update_summary isofmt db now uid (Some q) (Some n)
          = (db, if renders isofmt ms then Ambiguous ms else Apology)
      \<and> handle_update_location isofmt db now uid (Some q) (Some l)
          = (db, if renders isofmt ms then Ambiguous ms else Apology)
      \<and> sorted (map (\<lambda>(s, st, d, loc). st) ms))"
proof (intro conjI impI allI)
  assume "ms = []"
  with assms show "update_meeting_summary db now uid q n = Inr (db, False, None)"
    by (simp add: update_summary_none)
  from \<open>ms = []\<close> assms show "handle_update_summary isofmt db now uid (Some q) (Some n) = (db, NotFound)"
    by (simp add: handle_summary_none)
  from \<open>ms = []\<close> assms show "handle_update_location isofmt db now uid (Some q) (Some l) = (db, NotFound)"
    by (simp add: handle_location_none)
next
  fix s st d loc assume "ms = [(s, st, d, loc)]"
  with assms(4) have one: "smart_get_meetings db now uid (Some q) None None = Inr [(s, st, d, loc)]"
    by simp
  show "update_meeting_summary db now uid q n = Inr (set_summary db uid s st n, True, None)"
    by (rule update_summary_one [OF one])
  show "handle_update_summary isofmt db now uid (Some q) (Some n)
          = (set_summary db uid s st n, SummaryUpdated)"
    by (rule handle_summary_one [OF assms(1,2) one])
  show "handle_update_location isofmt db now uid (Some q) (Some l)
          = (update_meeting_location db uid s st l, LocationUpdated)"
    by (rule handle_location_one [OF assms(1,3) one])
  show "\<exists>i < length db. result_of (db ! i) = (s, st, d, loc) \<and> user_id (db ! i) = uid
            \<and> summary (set_summary db uid s st n ! i) = n
            \<and> location (update_meeting_location db uid s st l ! i) = Some l"
    by (rule unique_candidate_is_updated [OF one])
next
  assume many: "2 \<le> length ms"
  show "update_meeting_summary db now uid q n = Inr (db, False, Some ms)"
    by (rule update_summary_many [OF assms(4) many])
  show "handle_update_summary isofmt db now uid (Some q) (Some n)
          = (db, if renders isofmt ms then Ambiguous ms else Apology)"
    by (rule handle_summary_many [OF assms(1,2,4) many])
  show "handle_update_location isofmt db now uid (Some q) (Some l)
          = (db, if renders isofmt ms then Ambiguous ms else Apology)"
    by (rule handle_location_many [OF assms(1,3,4) many])
  show "sorted (map (\<lambda>(s, st, d, loc). st) ms)"
    by (rule candidates_sorted [OF assms(4)])
qed

theorem candidate_resolution_witness:
  "handle_update_summary iso_timestamp
      [\<lparr>user_id = 7, summary = [1086, 1073, 1077, 1076], start_time = [50, 48, 50, 53, 45, 48, 54, 45, 49, 49, 84, 49, 53, 58, 48, 48, 58, 48, 48], duration_minutes = 30, location = None\<rparr>,
       \<lparr>user_id = 7, summary = [1086, 1073, 1077, 1076], start_time = [50, 48, 50, 53, 45, 48, 54, 45, 49, 49, 84, 49, 48, 58, 48, 48, 58, 48, 48], duration_minutes = 30, location = Some [1059, 1092, 1072]\<rparr>]
      \<lparr>year = 2025, month = 6, day = 10\<rparr> 7 (Some [1086, 1073, 1077, 1076]) (Some [1091, 1078, 1080, 1085])
     = ([\<lparr>user_id = 7, summary = [1086, 1073, 1077, 1076], start_time = [50, 48, 50, 53, 45, 48, 54, 45, 49, 49, 84, 49, 53, 58, 48, 48, 58, 48, 48], duration_minutes = 30, location = None\<rparr>,
       \<lparr>user_id = 7, summary = [1086, 1073, 1077, 1076], start_time = [50, 48, 50, 53, 45, 48, 54, 45, 49, 49, 84, 49, 48, 58, 48, 48, 58, 48, 48], duration_minutes = 30, location = Some [1059, 1092, 1072]\<rparr>],
        Ambiguous [([1086, 1073, 1077, 1076], [50, 48, 50, 53, 45, 48, 54, 45, 49, 49, 84, 49, 48, 58, 48, 48, 58, 48, 48], 30, Some [1059, 1092, 1072]),
                   ([1086, 1073, 1077, 1076], [50, 48, 50, 53, 45, 48, 54, 45, 49, 49, 84, 49, 53, 58, 48, 48, 58, 48, 48], 30, None)])
   \<and> handle_update_location iso_timestamp
      [\<lparr>user_id = 7, summary = [1086, 1073, 1077, 1076], start_time = [50, 48, 50, 53, 45, 48, 54, 45, 49, 49, 84, 49, 53, 58, 48, 48, 58, 48, 48], duration_minutes = 30, location = None\<rparr>,
       \<lparr>user_id = 7, summary = [1086, 1073, 1077, 1076], start_time = [50, 48, 50, 53, 45, 48, 54, 45, 49, 49, 84, 49, 48, 58, 48, 48, 58, 48, 48], duration_minutes = 30, location = Some [1059, 1092, 1072]\<rparr>]
      \<lparr>year = 2025, month = 6, day = 10\<rparr> 7 (Some [1086, 1073, 1077, 1076]) (Some [1050, 1072, 1079, 1072, 1085, 1100])
     = ([\<lparr>user_id = 7, summary = [1086, 1073, 1077, 1076], start_time = [50, 48, 50, 53, 45, 48, 54, 45, 49, 49, 84, 49, 53, 58, 48, 48, 58, 48, 48], duration_minutes = 30, location = None\<rparr>,
       \<lparr>user_id = 7, summary = [1086, 1073, 1077, 1076], start_time = [50, 48, 50, 53, 45, 48, 54, 45, 49, 49, 84, 49, 48, 58, 48, 48, 58, 48, 48], duration_minutes = 30, location = Some [1059, 1092, 1072]\<rparr>],
        Ambiguous [([1086, 1073, 1077, 1076], [50, 48, 50, 53, 45, 48, 54, 45, 49, 49, 84, 49, 48, 58, 48, 48, 58, 48, 48], 30, Some [1059, 1092, 1072]),
                   ([1086, 1073, 1077, 1076], [50, 48, 50, 53, 45, 48, 54, 45, 49, 49, 84, 49, 53, 58, 48, 48, 58, 48, 48], 30, None)])
   \<and> handle_update_location iso_timestamp
      [\<lparr>user_id = 7, summary = [1086, 1073, 1077, 1076], start_time = [50, 48, 50, 53, 45, 48, 54, 45, 49, 49, 84, 49, 53, 58, 48, 48, 58, 48, 48], duration_minutes = 30, location = None\<rparr>,
       \<lparr>user_id = 7, summary = [1086, 1073, 1077, 1076], start_time = [50, 48, 50, 53, 45, 48, 54, 45, 49, 49, 84, 49, 48, 58, 48, 48, 58, 48, 48], duration_minutes = 30, location = Some [1059, 1092, 1072]\<rparr>]
      \<lparr>year = 2025, month = 6, day = 10\<rparr> 7 (Some [1059, 1092, 1072]) (Some [1050, 1072, 1079, 1072, 1085, 1100])
     = ([\<lparr>user_id = 7, summary = [1086, 1073, 1077, 1076], start_time = [50, 48, 50, 53, 45, 48, 54, 45, 49, 49, 84, 49, 53, 58, 48, 48, 58, 48, 48], duration_minutes = 30, location = None\<rparr>,
       \<lparr>user_id = 7, summary = [1086, 1073, 1077, 1076], start_time = [50, 48, 50, 53, 45, 48, 54, 45, 49, 49, 84, 49, 48, 58, 48, 48, 58, 48, 48], duration_minutes = 30, location = Some [1050, 1072, 1079, 1072, 1085, 1100]\<rparr>],
        LocationUpdated)"
  using candidate_resolution [of "[1086, 1073, 1077, 1076]" "[1091, 1078, 1080, 1085]" "[1050, 1072, 1079, 1072, 1085, 1100]" _ _ _ _ iso_timestamp,
      OF _ _ _ candidates_obed]
    candidate_resolution [of "[1059, 1092, 1072]" "[1091, 1078, 1080, 1085]" "[1050, 1072, 1079, 1072, 1085, 1100]" _ _ _ _ iso_timestamp,
      OF _ _ _ candidates_ufa]
  by (simp add: iso_eval update_meeting_location_def)

text \<open>
  Claim C3 as the specification words it fails on a store that holds a start time which
  is not a timestamp (the create action stores the text before it reads it): the two
  candidates are found, and the handler answers with its apology, not with the list.
\<close>

theorem ambiguous_reply_counterexample:
  "smart_get_meetings
      [\<lparr>user_id = 7, summary = [1086, 1073, 1077, 1076], start_time = [50, 48, 50, 53, 45, 48, 54, 45, 49, 49, 84, 49, 53, 58, 48, 48, 58, 48, 48], duration_minutes = 30, location = None\<rparr>,
       \<lparr>user_id = 7, summary = [1086, 1073, 1077, 1076], start_time = [1079, 1072, 1074, 1090, 1088, 1072], duration_minutes = 30, location = None\<rparr>]
      \<lparr>year = 2025, month = 6, day = 10\<rparr> 7 (Some [1086, 1073, 1077, 1076]) None None
     = Inr [([1086, 1073, 1077, 1076], [50, 48, 50, 53, 45, 48, 54, 45, 49, 49, 84, 49, 53, 58, 48, 48, 58, 48, 48], 30, None),
            ([1086, 1073, 1077, 1076], [1079, 1072, 1074, 1090, 1088, 1072], 30, None)]
   \<and> \<not> iso_timestamp [1079, 1072, 1074, 1090, 1088, 1072]
   \<and> handle_update_location iso_timestamp
      [\<lparr>user_id = 7, summary = [1086, 1073, 1077, 1076], start_time = [50, 48, 50, 53, 45, 48, 54, 45, 49, 49, 84, 49, 53, 58, 48, 48, 58, 48, 48], duration_minutes = 30, location = None\<rparr>,
       \<lparr>user_id = 7, summary = [1086, 1073, 1077, 1076], start_time = [1079, 1072, 1074, 1090, 1088, 1072], duration_minutes = 30, location = None\<rparr>]
      \<lparr>year = 2025, month = 6, day = 10\<rparr> 7 (Some [1086, 1073, 1077, 1076]) (Some [1050, 1072, 1079, 1072, 1085, 1100])
     = ([\<lparr>user_id = 7, summary = [1086, 1073, 1077, 1076], start_time = [50, 48, 50, 53, 45, 48, 54, 45, 49, 49, 84, 49, 53, 58, 48, 48, 58, 48, 48], duration_minutes = 30, location = None\<rparr>,
       \<lparr>user_id = 7, summary = [1086, 1073, 1077, 1076], start_time = [1079, 1072, 1074, 1090, 1088, 1072], duration_minutes = 30, location = None\<rparr>],
        Apology)
   \<and> handle_update_summary iso_timestamp
      [\<lparr>user_id = 7, summary = [1086, 1073, 1077, 1076], start_time = [50, 48, 50, 53, 45, 48, 54, 45, 49, 49, 84, 49, 53, 58, 48, 48, 58, 48, 48], duration_minutes = 30, location = None\<rparr>,
       \<lparr>user_id = 7, summary = [1086, 1073, 1077, 1076], start_time = [1079, 1072, 1074, 1090, 1088, 1072], duration_minutes = 30, location = None\<rparr>]
      \<lparr>year = 2025, month = 6, day = 10\<rparr> 7 (Some [1086, 1073, 1077, 1076]) (Some [1091, 1078, 1080, 1085])
     = ([\<lparr>user_id = 7, summary = [1086, 1073, 1077, 1076], start_time = [50, 48, 50, 53, 45, 48, 54, 45, 49, 49, 84, 49, 53, 58, 48, 48, 58, 48, 48], duration_minutes = 30, location = None\<rparr>,
       \<lparr>user_id = 7, summary = [1086, 1073, 1077, 1076], start_time = [1079, 1072, 1074, 1090, 1088, 1072], duration_minutes = 30, location = None\<rparr>],
        Apology)"
  by (simp add: candidates_unreadable handle_update_location_def handle_update_summary_def
      update_meeting_summary_def and_then_def iso_eval)

section \<open>The routing lookup\<close>














section \<open>Day intervals\<close>

text \<open>
  The interval handed to the store is one calendar day: \<open>next_day\<close> advances the day
  number by one, and a resolved date is a date of the calendar whenever the clock is.
  In UTC that is a width of 24 hours. The two keywords that the chain does reach
  behave as their names say.
\<close>

lemma days_before_month_Suc:
  "1 \<le> m \<Longrightarrow> days_before_month y (Suc m) = days_before_month y m + days_in_month y m"
  by (simp add: days_before_month_def)

lemma days_before_month_1: "days_before_month y (Suc 0) = 0"
  by (simp add: days_before_month_def)

lemma days_before_december:
  "days_before_month y 12 = 334 + (if is_leap y then 1 else 0)"
  by (simp add: days_before_month_def upt_rec days_in_month_def)

lemma days_before_next_year:
  assumes "1 \<le> y"
  shows "days_before_year (Suc y) = days_before_year y + 365 + (if is_leap y then 1 else 0)"
proof -
  from assms obtain p where y: "y = Suc p" by (cases y) auto
  define A B C where "A = p div 4" and "B = p div 100" and "C = p div 400"
  have a: "Suc p div 4 = A + (if 4 dvd Suc p then 1 else 0)"
    by (simp add: div_Suc mod_eq_0_iff_dvd A_def)
  have b: "Suc p div 100 = B + (if 100 dvd Suc p then 1 else 0)"
    by (simp add: div_Suc mod_eq_0_iff_dvd B_def)
  have c: "Suc p div 400 = C + (if 400 dvd Suc p then 1 else 0)"
    by (simp add: div_Suc mod_eq_0_iff_dvd C_def)
  have le: "B \<le> A" unfolding A_def B_def by (rule div_le_mono2) simp_all
  have d1: "400 dvd Suc p \<Longrightarrow> 100 dvd Suc p" by (rule dvd_trans [of 100 400]) simp_all
  have d2: "100 dvd Suc p \<Longrightarrow> 4 dvd Suc p" by (rule dvd_trans [of 4 100]) simp_all
  have leap: "is_leap (Suc p) \<longleftrightarrow> (400 dvd Suc p \<or> (\<not> 100 dvd Suc p \<and> 4 dvd Suc p))"
    by (auto simp: is_leap_def mod_eq_0_iff_dvd)
  have old: "days_before_year (Suc p) = p * 365 + A - B + C"
    by (simp add: days_before_year_def A_def B_def C_def)
  have new: "days_before_year (Suc (Suc p)) =
      Suc p * 365 + (A + (if 4 dvd Suc p then 1 else 0)) - (B + (if 100 dvd Suc p then 1 else 0))
        + (C + (if 400 dvd Suc p then 1 else 0))"
    by (simp only: days_before_year_def Let_def diff_Suc_1 a b c)
  show ?thesis
    unfolding y old new leap using le d1 d2 by (auto split: if_splits)
qed

lemma next_day_ordinal:
  assumes "valid_date d" "next_day d = Inr d'"
  shows "valid_date d' \<and> toordinal d' = toordinal d + 1"
proof -
  consider (day) "day d < days_in_month (year d) (month d)"
    | (month) "day d = days_in_month (year d) (month d)" "month d < 12"
    | (year) "day d = days_in_month (year d) (month d)" "month d = 12" "year d < 9999"
    using assms by (auto simp: valid_date_def next_day_def split: if_splits)
  then show ?thesis
  proof cases
    case day
    with assms show ?thesis
      by (auto simp: next_day_def valid_date_def toordinal_def)
  next
    case month
    with assms have d': "d' = d\<lparr>month := month d + 1, day := 1\<rparr>"
      by (auto simp: next_day_def)
    from assms(1) have m: "1 \<le> month d" by (simp add: valid_date_def)
    have "1 \<le> days_in_month (year d) (month d + 1)" by (simp add: days_in_month_def)
    with assms(1) month d' have "valid_date d'" by (simp add: valid_date_def)
    moreover from month d' days_before_month_Suc [OF m, of "year d"]
    have "toordinal d' = toordinal d + 1" by (simp add: toordinal_def)
    ultimately show ?thesis by simp
  next
    case year
    with assms have d': "d' = \<lparr>year = year d + 1, month = 1, day = 1\<rparr>"
      by (auto simp: next_day_def)
    from assms(1) have y: "1 \<le> year d" by (simp add: valid_date_def)
    from year d' have "valid_date d'" by (simp add: valid_date_def days_in_month_def)
    moreover from year have "day d = 31" by (simp add: days_in_month_def)
    with year d' days_before_next_year [OF y]
    have "toordinal d' = toordinal d + 1"
      by (simp add: toordinal_def days_before_month_1 days_before_december)
    ultimately show ?thesis by simp
  qed
qed

lemma add_days_valid:
  "valid_date d \<Longrightarrow> add_days d n = Inr d' \<Longrightarrow> valid_date d' \<and> toordinal d' = toordinal d + n"
proof (induction n arbitrary: d')
  case 0
  then show ?case by simp
next
  case (Suc n)
  from Suc.prems(2) obtain e where e: "add_days d n = Inr e" "next_day e = Inr d'"
    by (auto split: sum.splits)
  from Suc.IH [OF Suc.prems(1) e(1)] have "valid_date e" "toordinal e = toordinal d + n" by auto
  with next_day_ordinal [OF this(1) e(2)] show ?case by simp
qed

lemma resolved_date_valid:
  assumes "valid_date now" "resolve_target_date lq now = Inr (Some t)"
  shows "valid_date t"
proof (cases "relative_day lq now")
  case (Inl e)
  with assms(2) show ?thesis by (simp add: resolve_unfold)
next
  case (Inr t1)
  show ?thesis
  proof (cases t1)
    case (Some d)
    with Inr assms(2) have "relative_day lq now = Inr (Some t)" by (simp add: resolve_unfold)
    with assms(1) show ?thesis
      by (auto simp: relative_day_def and_then_def split: if_splits sum.splits dest: add_days_valid next_day_ordinal)
  next
    case None
    with Inr assms(2) have "named_month_day lq now None = Inr (Some t)
        \<or> numeric_day_month lq now None = Inr (Some t)"
      by (auto simp: resolve_unfold split: sum.splits option.splits)
    then show ?thesis
      by (auto simp: named_month_day_def numeric_day_month_def Let_def and_then_def
          split: option.splits sum.splits prod.splits py_error.splits dest!: datetime_Inr)
  qed
qed

lemma resolved_interval_is_one_day:
  assumes "valid_date now" "resolve_target_date (str_lower q) now = Inr (Some t)"
    and "smart_filter now (Some q) time_min time_max = Inr (tmin, tmax, residual)"
  shows "\<exists>t'. tmin = Some (strftime_midnight t) \<and> tmax = Some (strftime_midnight t')
           \<and> valid_date t' \<and> toordinal t' = toordinal t + 1"
proof -
  from assms(3) obtain t' where "next_day t = Inr t'" "tmin = Some (strftime_midnight t)"
    "tmax = Some (strftime_midnight t')"
    by (auto simp: smart_filter_resolved [OF assms(2)] and_then_def split: sum.splits)
  with next_day_ordinal [OF resolved_date_valid [OF assms(1,2)] this(1)] show ?thesis by blast
qed

lemma zavtra_is_next_day:
  assumes "str_in kw_zavtra (str_lower q)"
  shows "smart_filter now (Some q) time_min time_max =
     and_then (add_days now 1) (\<lambda>t.
       and_then (next_day t) (\<lambda>t'.
         Inr (Some (strftime_midnight t), Some (strftime_midnight t'),
              residual_query (str_lower q))))"
proof -
  from assms have ne: "q \<noteq> []" by (auto simp: str_lower_def)
  have "resolve_target_date (str_lower q) now = and_then (add_days now 1) (\<lambda>t. Inr (Some t))"
    using assms by (auto simp: resolve_unfold relative_day_def and_then_def split: sum.splits)
  with ne show ?thesis by (simp add: smart_filter_def and_then_def split: sum.splits)
qed

lemma segodnya_is_today:
  assumes "str_in kw_segodnya (str_lower q)" "\<not> str_in kw_zavtra (str_lower q)"
  shows "smart_filter now (Some q) time_min time_max =
       and_then (next_day now) (\<lambda>t'.
         Inr (Some (strftime_midnight now), Some (strftime_midnight t'),
              residual_query (str_lower q)))"
proof -
  from assms have ne: "q \<noteq> []" by (auto simp: str_lower_def)
  have "resolve_target_date (str_lower q) now = Inr (Some now)"
    using assms by (auto simp: resolve_unfold relative_day_def)
  with ne show ?thesis by (simp add: smart_filter_def and_then_def split: sum.splits)
qed

end
